theory Spec2Isabelle
  imports Main "HOL-Library.Sublist"
begin

section \<open>Python values\<close>

text \<open>
  A \<^verbatim>\<open>dict\<close> keeps its keys distinct and in insertion order: it is an association
  list. Assigning to a key that is present replaces the value where it stands;
  assigning to a new key appends. A \<^verbatim>\<open>set\<close> of strings is a list without
  repetition (Python does not fix the order in which a set is iterated, and nothing
  below depends on it).
\<close>

type_synonym ('k, 'v) dict = "('k \<times> 'v) list"

definition dict_keys :: "('k, 'v) dict \<Rightarrow> 'k list" where
  "dict_keys d = map fst d"

definition dict_get :: "('k, 'v) dict \<Rightarrow> 'k \<Rightarrow> 'v option" where
  "dict_get d k = map_of d k"

fun dict_set :: "('k, 'v) dict \<Rightarrow> 'k \<Rightarrow> 'v \<Rightarrow> ('k, 'v) dict" where
  "dict_set [] k v = [(k, v)]"
| "dict_set ((k', v') # d) k v =
     (if k' = k then (k, v) # d else (k', v') # dict_set d k v)"

text \<open>A dict comprehension \<^verbatim>\<open>{k: v for ...}\<close> assigns its pairs from left to right.\<close>

definition dict_of :: "('k \<times> 'v) list \<Rightarrow> ('k, 'v) dict" where
  "dict_of kvs = foldl (\<lambda>d (k, v). dict_set d k v) [] kvs"

definition set_add :: "'a list \<Rightarrow> 'a \<Rightarrow> 'a list" where
  "set_add xs x = (if x \<in> set xs then xs else xs @ [x])"

text \<open>
  A Python \<^verbatim>\<open>str\<close> is represented by its UTF-8 encoding, a list of bytes. Its
  characters are the pieces of the encoding: an ASCII byte alone, or a byte outside
  ASCII with the continuation bytes (\<^verbatim>\<open>0x80\<close> to \<^verbatim>\<open>0xBF\<close>) that follow it.
\<close>

definition ascii_byte :: "char \<Rightarrow> bool" where
  "ascii_byte b = (of_char b < (128::nat))"

definition continuation :: "char \<Rightarrow> bool" where
  "continuation b = ((128::nat) \<le> of_char b \<and> of_char b < (192::nat))"

fun utf8_chars :: "string \<Rightarrow> string list" where
  "utf8_chars [] = []"
| "utf8_chars (b # bs) =
     (case utf8_chars bs of
        [] \<Rightarrow> [[b]]
      | c # cs \<Rightarrow>
          if \<not> ascii_byte b \<and> (case c of [] \<Rightarrow> False | b' # _ \<Rightarrow> continuation b')
          then (b # c) # cs
          else [b] # c # cs)"

text \<open>
  What \<^verbatim>\<open>str.lower\<close> takes from the interpreter's Unicode database for the characters
  outside ASCII: the full lower-case mapping of a character, and the properties
  \<^emph>\<open>cased\<close> and \<^emph>\<open>case-ignorable\<close>. Inside ASCII the letters \<^verbatim>\<open>A\<close> to \<^verbatim>\<open>Z\<close> map to
  \<^verbatim>\<open>a\<close> to \<^verbatim>\<open>z\<close>, the letters are the cased characters, and the case-ignorable
  characters are the apostrophe, the full stop, the colon, the circumflex and the
  grave accent.
\<close>

record unicode_db =
  to_lower_full :: "string \<Rightarrow> string"
  is_cased :: "string \<Rightarrow> bool"
  is_case_ignorable :: "string \<Rightarrow> bool"

definition ascii_char :: "string \<Rightarrow> bool" where
  "ascii_char c = (case c of [b] \<Rightarrow> ascii_byte b | _ \<Rightarrow> False)"

definition lower_ascii :: "char \<Rightarrow> char" where
  "lower_ascii b =
     (case map_of (zip ''ABCDEFGHIJKLMNOPQRSTUVWXYZ'' ''abcdefghijklmnopqrstuvwxyz'') b of
        None \<Rightarrow> b
      | Some l \<Rightarrow> l)"

definition lower_char :: "unicode_db \<Rightarrow> string \<Rightarrow> string" where
  "lower_char db c = (if ascii_char c then map lower_ascii c else to_lower_full db c)"

definition cased :: "unicode_db \<Rightarrow> string \<Rightarrow> bool" where
  "cased db c =
     (if ascii_char c
      then c \<in> set (map (\<lambda>b. [b]) ''ABCDEFGHIJKLMNOPQRSTUVWXYZabcdefghijklmnopqrstuvwxyz'')
      else is_cased db c)"

definition case_ignorable :: "unicode_db \<Rightarrow> string \<Rightarrow> bool" where
  "case_ignorable db c =
     (if ascii_char c
      then c \<in> set [[CHR 0x27], [CHR 0x2E], [CHR 0x3A], [CHR 0x5E], [CHR 0x60]]
      else is_case_ignorable db c)"

text \<open>
  The capital sigma (\<^verbatim>\<open>U+03A3\<close>) is the one character whose lower case depends on its
  neighbours: it becomes the final sigma (\<^verbatim>\<open>U+03C2\<close>) when, case-ignorable characters
  skipped, a cased character stands before it and none after it, and the small sigma
  (\<^verbatim>\<open>U+03C3\<close>) otherwise. \<open>before\<close> holds the characters before it, nearest first.
\<close>

definition capital_sigma :: string where
  "capital_sigma = [CHR 0xCE, CHR 0xA3]"

definition final_sigma :: "unicode_db \<Rightarrow> string list \<Rightarrow> string list \<Rightarrow> bool" where
  "final_sigma db before after =
     ((case dropWhile (case_ignorable db) before of [] \<Rightarrow> False | c # _ \<Rightarrow> cased db c)
      \<and> (case dropWhile (case_ignorable db) after of [] \<Rightarrow> True | c # _ \<Rightarrow> \<not> cased db c))"

fun lower_chars :: "unicode_db \<Rightarrow> string list \<Rightarrow> string list \<Rightarrow> string" where
  "lower_chars db before [] = []"
| "lower_chars db before (c # after) =
     (if c = capital_sigma
      then (if final_sigma db before after then [CHR 0xCF, CHR 0x82] else [CHR 0xCF, CHR 0x83])
      else lower_char db c)
     @ lower_chars db (c # before) after"

definition lower :: "unicode_db \<Rightarrow> string \<Rightarrow> string" where
  "lower db s = lower_chars db [] (utf8_chars s)"

text \<open>
  \<^verbatim>\<open>str.strip()\<close> removes the characters for which \<^verbatim>\<open>str.isspace\<close> holds from both
  ends. They are the code points \<^verbatim>\<open>09\<close> to \<^verbatim>\<open>0D\<close>, \<^verbatim>\<open>1C\<close> to \<^verbatim>\<open>20\<close>, \<^verbatim>\<open>85\<close>,
  \<^verbatim>\<open>A0\<close>, \<^verbatim>\<open>1680\<close>, \<^verbatim>\<open>2000\<close> to \<^verbatim>\<open>200A\<close>, \<^verbatim>\<open>2028\<close>, \<^verbatim>\<open>2029\<close>, \<^verbatim>\<open>202F\<close>,
  \<^verbatim>\<open>205F\<close> and \<^verbatim>\<open>3000\<close>, listed here in UTF-8.
\<close>

definition whitespace :: "string list" where
  "whitespace =
     [[CHR 0x09], [CHR 0x0A], [CHR 0x0B], [CHR 0x0C], [CHR 0x0D],
      [CHR 0x1C], [CHR 0x1D], [CHR 0x1E], [CHR 0x1F], [CHR 0x20],
      [CHR 0xC2, CHR 0x85], [CHR 0xC2, CHR 0xA0], [CHR 0xE1, CHR 0x9A, CHR 0x80],
      [CHR 0xE2, CHR 0x80, CHR 0x80], [CHR 0xE2, CHR 0x80, CHR 0x81],
      [CHR 0xE2, CHR 0x80, CHR 0x82], [CHR 0xE2, CHR 0x80, CHR 0x83],
      [CHR 0xE2, CHR 0x80, CHR 0x84], [CHR 0xE2, CHR 0x80, CHR 0x85],
      [CHR 0xE2, CHR 0x80, CHR 0x86], [CHR 0xE2, CHR 0x80, CHR 0x87],
      [CHR 0xE2, CHR 0x80, CHR 0x88], [CHR 0xE2, CHR 0x80, CHR 0x89],
      [CHR 0xE2, CHR 0x80, CHR 0x8A], [CHR 0xE2, CHR 0x80, CHR 0xA8],
      [CHR 0xE2, CHR 0x80, CHR 0xA9], [CHR 0xE2, CHR 0x80, CHR 0xAF],
      [CHR 0xE2, CHR 0x81, CHR 0x9F], [CHR 0xE3, CHR 0x80, CHR 0x80]]"

definition isspace :: "string \<Rightarrow> bool" where
  "isspace c = (c \<in> set whitespace)"

definition strip_chars :: "string list \<Rightarrow> string list" where
  "strip_chars cs = rev (dropWhile isspace (rev (dropWhile isspace cs)))"

definition strip :: "string \<Rightarrow> string" where
  "strip s = concat (strip_chars (utf8_chars s))"

text \<open>\<^verbatim>\<open>s.split(c)\<close> for a separator of one character: \<^verbatim>\<open>"".split(" ") == [""]\<close>.\<close>

fun split_on :: "char \<Rightarrow> string \<Rightarrow> string list" where
  "split_on c [] = [[]]"
| "split_on c (x # xs) =
     (if x = c then [] # split_on c xs
      else (case split_on c xs of
              [] \<Rightarrow> [[x]]
            | w # ws \<Rightarrow> (x # w) # ws))"

fun join_with :: "string \<Rightarrow> string list \<Rightarrow> string" where
  "join_with sep [] = []"
| "join_with sep [x] = x"
| "join_with sep (x # y # ys) = x @ sep @ join_with sep (y # ys)"

text \<open>\<^verbatim>\<open>"interfaces" in s\<close> is the substring test.\<close>

definition str_contains :: "string \<Rightarrow> string \<Rightarrow> bool" where
  "str_contains needle s = sublist needle s"

section \<open>Paths\<close>

text \<open>
  A \<^verbatim>\<open>pathlib\<close> POSIX path is its root (empty, one slash or two slashes) and its
  components. Parsing drops empty components and the component of a single dot;
  \<^verbatim>\<open>a / b\<close> is \<^verbatim>\<open>b\<close> when \<^verbatim>\<open>b\<close> is absolute and the concatenation otherwise;
  \<^verbatim>\<open>parent\<close> drops the last component and leaves a path without components as it
  is; two paths are equal when root and components are.
\<close>

datatype Path = Path (root: string) (parts: "string list")

definition path_root :: "string \<Rightarrow> string" where
  "path_root s =
     (if take 2 s = ''//'' \<and> take 3 s \<noteq> ''///'' then ''//''
      else if take 1 s = ''/'' then ''/'' else [])"

definition parse_path :: "string \<Rightarrow> Path" where
  "parse_path s =
     Path (path_root s) (filter (\<lambda>c. c \<noteq> [] \<and> c \<noteq> ''.'') (split_on CHR ''/'' s))"

definition is_absolute :: "Path \<Rightarrow> bool" where
  "is_absolute p = (root p \<noteq> [])"

definition joinpath :: "Path \<Rightarrow> Path \<Rightarrow> Path" where
  "joinpath p q = (if is_absolute q then q else Path (root p) (parts p @ parts q))"

definition parent :: "Path \<Rightarrow> Path" where
  "parent p = Path (root p) (butlast (parts p))"

definition path_str :: "Path \<Rightarrow> string" where
  "path_str p =
     (if root p = [] \<and> parts p = [] then ''.'' else root p @ join_with ''/'' (parts p))"

definition os_path_sep :: string where
  "os_path_sep = ''/''"

text \<open>
  The exceptions that the modelled code raises. \<^verbatim>\<open>raise VyperCompileError(err) from err\<close>
  carries the tool's error both as its argument and as its cause. Reading a file fails
  with the error that the operating system or the decoder reports.
\<close>

datatype error =
    VyperCompileError (base_err: string) (cause: string)
  | KeyError string
  | FileNotFoundError Path
  | OSError Path
  | UnicodeDecodeError Path
  | ValueError

text \<open>
  The project manager \<^verbatim>\<open>pm\<close>: its path, the working directory (for
  \<^verbatim>\<open>Path.absolute\<close>), the two tests of the disk that the code makes, \<^verbatim>\<open>is_file()\<close>
  and \<^verbatim>\<open>read_text(encoding="utf8")\<close>, and the configured output format. The two tests
  are independent: a file can exist and not be readable as UTF-8 text.
\<close>

record project =
  path :: Path
  cwd :: Path
  is_file :: "Path \<Rightarrow> bool"
  read_text :: "Path \<Rightarrow> error + string"
  output_format :: "string list option"

definition absolute :: "project \<Rightarrow> Path \<Rightarrow> Path" where
  "absolute pm p = (if is_absolute p then p else joinpath (cwd pm) p)"

section \<open>The syntax tree and its classifier\<close>

text \<open>
  \<^verbatim>\<open>ASTNode\<close> is a recursive tree: a type tag, a classification, a line span and the
  sequence of children. \<^verbatim>\<open>ASTClassification\<close> is an enumeration; a freshly validated
  node is \<^verbatim>\<open>UNCLASSIFIED\<close>.
\<close>

datatype ASTClassification = UNCLASSIFIED | FUNCTION

datatype ASTNode =
  ASTNode (ast_type: string) (classification: ASTClassification)
          (lineno: int) (end_lineno: int) (children: "ASTNode list")

text \<open>
  \<^verbatim>\<open>_classify_ast\<close> sets the classification of the node in place when its tag is one of
  \<^verbatim>\<open>FUNCTION_AST_TYPES\<close> and then visits every child. The tree is owned by the caller,
  so the mutation is the returned tree. \<^verbatim>\<open>FUNCTION_AST_TYPES\<close> is a constant of
  \<^verbatim>\<open>ape_vyper._utils\<close>; it is the parameter \<open>fts\<close>.
\<close>

fun classify_ast :: "string list \<Rightarrow> ASTNode \<Rightarrow> ASTNode" where
  "classify_ast fts (ASTNode t c l e ch) =
     ASTNode t (if t \<in> set fts then FUNCTION else c) l e (map (classify_ast fts) ch)"

text \<open>All nodes of a tree, parent before children, children left to right.\<close>

fun nodes :: "ASTNode \<Rightarrow> ASTNode list" where
  "nodes (ASTNode t c l e ch) = ASTNode t c l e ch # concat (map nodes ch)"

text \<open>The tree with every classification reset: tags, spans, shape and order remain.\<close>

fun unclassified :: "ASTNode \<Rightarrow> ASTNode" where
  "unclassified (ASTNode t c l e ch) = ASTNode t UNCLASSIFIED l e (map unclassified ch)"

text \<open>The fields of one node, children counted, and what the classifier makes of them.\<close>

definition node_fields :: "ASTNode \<Rightarrow> string \<times> ASTClassification \<times> int \<times> int \<times> nat" where
  "node_fields n = (ast_type n, classification n, lineno n, end_lineno n, length (children n))"

definition classified_fields ::
  "string list \<Rightarrow> ASTNode \<Rightarrow> string \<times> ASTClassification \<times> int \<times> int \<times> nat" where
  "classified_fields fts n =
     (ast_type n, (if ast_type n \<in> set fts then FUNCTION else classification n),
      lineno n, end_lineno n, length (children n))"

section \<open>The settings resolver\<close>

text \<open>
  \<^verbatim>\<open>Optimization\<close> is \<^verbatim>\<open>Union[str, bool]\<close>. A value is falsy when it is \<^verbatim>\<open>False\<close> or
  the empty string; \<^verbatim>\<open>str\<close> of a boolean is \<^verbatim>\<open>True\<close> or \<^verbatim>\<open>False\<close>, and \<^verbatim>\<open>str\<close> of
  \<^verbatim>\<open>None\<close> is \<^verbatim>\<open>None\<close>.
\<close>

datatype Optimization = OBool bool | OStr string

fun truthy :: "Optimization \<Rightarrow> bool" where
  "truthy (OBool b) = b"
| "truthy (OStr s) = (s \<noteq> [])"

fun str_optimization :: "Optimization \<Rightarrow> string" where
  "str_optimization (OBool True) = ''True''"
| "str_optimization (OBool False) = ''False''"
| "str_optimization (OStr s) = s"

fun str_optional :: "string option \<Rightarrow> string" where
  "str_optional None = ''None''"
| "str_optional (Some s) = s"

text \<open>
  What \<^verbatim>\<open>get_settings\<close> reads besides its arguments: the project, the configured EVM
  version, the table \<^verbatim>\<open>EVM_VERSION_DEFAULT\<close>, the method
  \<^verbatim>\<open>_get_default_optimization\<close> (a version may override it), the two pragma maps that
  \<^verbatim>\<open>get_optimization_pragma_map\<close> and \<^verbatim>\<open>get_evm_version_pragma_map\<close> return for
  these sources, \<^verbatim>\<open>get_relative_path\<close>, \<^verbatim>\<open>getsitepackages()\<close> and the Unicode
  database behind \<^verbatim>\<open>str.lower\<close>. A version is the string of its base version.
\<close>

record settings_self =
  local_project :: project
  config_evm_version :: "string option"
  EVM_VERSION_DEFAULT :: "string \<Rightarrow> string option"
  get_default_optimization :: "string \<Rightarrow> Optimization"
  optimizations_map :: "string \<Rightarrow> Optimization option"
  evm_version_map :: "string \<Rightarrow> string option"
  get_relative_path :: "Path \<Rightarrow> Path \<Rightarrow> Path"
  getsitepackages :: "string list"
  unicode_data :: unicode_db

text \<open>The base class's \<^verbatim>\<open>_get_default_optimization\<close>.\<close>

definition base_get_default_optimization :: "string \<Rightarrow> Optimization" where
  "base_get_default_optimization vyper_version = OBool True"

text \<open>\<^verbatim>\<open>self.config.evm_version or EVM_VERSION_DEFAULT.get(version.base_version)\<close>\<close>

definition get_evm_version :: "settings_self \<Rightarrow> string \<Rightarrow> string option" where
  "get_evm_version self version =
     (case config_evm_version self of
        Some v \<Rightarrow> if v \<noteq> [] then Some v else EVM_VERSION_DEFAULT self version
      | None \<Rightarrow> EVM_VERSION_DEFAULT self version)"

definition source_id_of :: "settings_self \<Rightarrow> Path \<Rightarrow> string" where
  "source_id_of self source_path =
     path_str (get_relative_path self (absolute (local_project self) source_path) (path (local_project self)))"

text \<open>
  \<^verbatim>\<open>if not (optimization := optimizations_map.get(source_id)): optimization = default\<close>
\<close>

definition resolve_optimization :: "settings_self \<Rightarrow> string \<Rightarrow> string \<Rightarrow> Optimization" where
  "resolve_optimization self version source_id =
     (case optimizations_map self source_id of
        None \<Rightarrow> get_default_optimization self version
      | Some optimization \<Rightarrow>
          if truthy optimization then optimization
          else get_default_optimization self version)"

text \<open>\<^verbatim>\<open>evm_version_map.get(source_id, default_evm_version)\<close>\<close>

definition resolve_evm_version :: "settings_self \<Rightarrow> string \<Rightarrow> string \<Rightarrow> string option" where
  "resolve_evm_version self version source_id =
     (case evm_version_map self source_id of
        Some evm_version \<Rightarrow> Some evm_version
      | None \<Rightarrow> get_evm_version self version)"

definition settings_key_of :: "settings_self \<Rightarrow> string \<Rightarrow> string \<Rightarrow> string" where
  "settings_key_of self version source_id =
     lower (unicode_data self)
       (str_optimization (resolve_optimization self version source_id) @ ''%'' @
        str_optional (resolve_evm_version self version source_id))"

text \<open>
  One step of the first loop: a new key gets the singleton set, a known key gets the
  source added to its set.
\<close>

fun add_source :: "string \<Rightarrow> string \<Rightarrow> (string, string list) dict \<Rightarrow> (string, string list) dict" where
  "add_source settings_key source_id [] = [(settings_key, [source_id])]"
| "add_source settings_key source_id ((k, files) # output_selection) =
     (if k = settings_key then (k, set_add files source_id) # output_selection
      else (k, files) # add_source settings_key source_id output_selection)"

fun group_sources ::
  "settings_self \<Rightarrow> string \<Rightarrow> Path list \<Rightarrow> (string, string list) dict \<Rightarrow> (string, string list) dict" where
  "group_sources self version [] output_selection = output_selection"
| "group_sources self version (source_path # source_paths) output_selection =
     (let source_id = source_id_of self source_path;
          settings_key = settings_key_of self version source_id
      in group_sources self version source_paths
           (add_source settings_key source_id output_selection))"

text \<open>
  A source id belongs to the group of a key when the set stored under the key holds it.
\<close>

definition in_group :: "(string, string list) dict \<Rightarrow> string \<Rightarrow> string \<Rightarrow> bool" where
  "in_group output_selection settings_key source_id =
     (case dict_get output_selection settings_key of
        None \<Rightarrow> False
      | Some files \<Rightarrow> source_id \<in> set files)"

definition get_output_format :: "project \<Rightarrow> string list" where
  "get_output_format pm =
     (case output_format pm of
        Some (f # fs) \<Rightarrow> f # fs
      | _ \<Rightarrow> [''*''])"

text \<open>
  \<^verbatim>\<open>_get_selection_dictionary\<close>: the comprehension keeps \<^verbatim>\<open>s\<close> when
  \<^verbatim>\<open>(pm.path / s).is_file()\<close> and \<^verbatim>\<open>"interfaces" not in s\<close>.
\<close>

definition get_selection_dictionary :: "project \<Rightarrow> string list \<Rightarrow> (string, string list) dict" where
  "get_selection_dictionary pm selection =
     dict_of (map (\<lambda>s. (s, get_output_format pm))
       (filter (\<lambda>s. is_file pm (joinpath (path pm) (parse_path s))
                    \<and> \<not> str_contains ''interfaces'' s) selection))"

text \<open>
  The specification speaks of a source \<^emph>\<open>inside an interfaces directory\<close>. In its
  words: one of the directories on the path of the source id, the file name apart, is
  named \<^verbatim>\<open>interfaces\<close>. This predicate is not part of the code; the code's tests are
  compared with it.
\<close>

definition spec_inside_interfaces_directory :: "string \<Rightarrow> bool" where
  "spec_inside_interfaces_directory source_id =
     (''interfaces'' \<in> set (butlast (parts (parse_path source_id))))"

text \<open>
  The payload of one settings group. In \<^verbatim>\<open>compile\<close> a payload without the key
  \<^verbatim>\<open>outputSelection\<close> is read as one with the empty selection.
\<close>

record settings_set =
  optimize :: Optimization
  outputSelection :: "(string, string list) dict"
  search_paths :: "string list"
  evmVersion :: "string option"

text \<open>
  \<^verbatim>\<open>optimization, evm_version = settings_key.split("%")\<close> needs exactly two pieces
  and raises \<^verbatim>\<open>ValueError\<close> otherwise.
\<close>

definition split_key :: "string \<Rightarrow> (string \<times> string) option" where
  "split_key settings_key =
     (case split_on CHR ''%'' settings_key of
        [optimization, evm_version] \<Rightarrow> Some (optimization, evm_version)
      | _ \<Rightarrow> None)"

definition settings_payload :: "settings_self \<Rightarrow> string \<Rightarrow> string \<Rightarrow> string list \<Rightarrow> settings_set" where
  "settings_payload self optimization evm_version selection =
     \<lparr> optimize = (if optimization = ''true'' then OBool True
                   else if optimization = ''false'' then OBool False
                   else OStr optimization),
       outputSelection = get_selection_dictionary (local_project self) selection,
       search_paths = getsitepackages self @ [''.''],
       evmVersion = (if evm_version \<noteq> [] \<and> evm_version \<noteq> ''none'' \<and> evm_version \<noteq> ''null''
                     then Some evm_version else None) \<rparr>"

text \<open>
  The second loop. The keys of \<^verbatim>\<open>output_selection\<close> are distinct, so every assignment
  to \<^verbatim>\<open>version_settings\<close> appends.
\<close>

fun version_settings ::
  "settings_self \<Rightarrow> (string, string list) dict \<Rightarrow> error + (string, settings_set) dict" where
  "version_settings self [] = Inr []"
| "version_settings self ((settings_key, selection) # output_selection) =
     (case split_key settings_key of
        None \<Rightarrow> Inl ValueError
      | Some (optimization, evm_version) \<Rightarrow>
          (case version_settings self output_selection of
             Inl e \<Rightarrow> Inl e
           | Inr vs \<Rightarrow>
               Inr ((settings_key, settings_payload self optimization evm_version selection) # vs)))"

text \<open>
  \<^verbatim>\<open>source_paths\<close> is an \<^verbatim>\<open>Iterable\<close>: a sequence (a list, a tuple, a set) that can be
  iterated again and again, or an iterator (a generator) that yields its elements once.
  \<^verbatim>\<open>get_settings\<close> hands it to \<^verbatim>\<open>get_optimization_pragma_map\<close> and to
  \<^verbatim>\<open>get_evm_version_pragma_map\<close>, which scan every source, before its own loop
  iterates it: the loop finds a sequence whole and an iterator exhausted.
\<close>

datatype 'a iterable = Sequence "'a list" | Iterator "'a list"

fun loop_source_paths :: "'a iterable \<Rightarrow> 'a list" where
  "loop_source_paths (Sequence xs) = xs"
| "loop_source_paths (Iterator xs) = []"

definition get_settings ::
  "settings_self \<Rightarrow> string \<Rightarrow> Path iterable \<Rightarrow> error + (string, settings_set) dict" where
  "get_settings self version source_paths =
     version_settings self (group_sources self version (loop_source_paths source_paths) [])"

text \<open>
  A source id is selected in a group of the returned settings when it is a key of the
  output selection of the payload under the group's key.
\<close>

definition selected :: "(string, settings_set) dict \<Rightarrow> string \<Rightarrow> string \<Rightarrow> bool" where
  "selected returned settings_key source_id =
     (case dict_get returned settings_key of
        None \<Rightarrow> False
      | Some payload \<Rightarrow> source_id \<in> set (dict_keys (outputSelection payload)))"

section \<open>The compilation driver\<close>

text \<open>
  \<^verbatim>\<open>_get_sources_dictionary\<close>: the inner comprehension pairs every source id with
  \<^verbatim>\<open>pm.path / src_id\<close>; the outer one reads the text of every file whose parent is not
  \<^verbatim>\<open>pm.path / "interfaces"\<close>. The first file that cannot be read ends the call with
  its error. The value \<^verbatim>\<open>{"content": text}\<close> is represented by the text.
\<close>

fun read_sources :: "project \<Rightarrow> (string, Path) dict \<Rightarrow> error + (string, string) dict" where
  "read_sources pm [] = Inr []"
| "read_sources pm ((s, p) # rest) =
     (if parent p \<noteq> joinpath (path pm) (parse_path ''interfaces'')
      then (case read_text pm p of
              Inl e \<Rightarrow> Inl e
            | Inr text \<Rightarrow>
                (case read_sources pm rest of
                   Inl e \<Rightarrow> Inl e
                 | Inr d \<Rightarrow> Inr ((s, text) # d)))
      else read_sources pm rest)"

definition get_sources_dictionary :: "project \<Rightarrow> string list \<Rightarrow> error + (string, string) dict" where
  "get_sources_dictionary pm source_ids =
     read_sources pm
       (dict_of (map (\<lambda>src_id. (src_id, joinpath (path pm) (parse_path src_id))) source_ids))"

text \<open>
  \<^verbatim>\<open>get_import_remapping\<close> of the base class: for every dependency and every contract
  type of its manifest, the entry \<^verbatim>\<open>key/name.json\<close> with the dumped ABI list. A
  manifest is represented by its \<^verbatim>\<open>contract_types\<close> (possibly \<^verbatim>\<open>None\<close>), a contract
  type by its ABI list, and the value \<^verbatim>\<open>{"abi": abi_list}\<close> by the list.
\<close>

fun add_manifest ::
  "string \<Rightarrow> (string, 'j list) dict \<Rightarrow> (string, 'j list) dict \<Rightarrow> (string, 'j list) dict" where
  "add_manifest key [] interfaces = interfaces"
| "add_manifest key ((name, abi_list) # cts) interfaces =
     add_manifest key cts (dict_set interfaces (key @ ''/'' @ name @ ''.json'') abi_list)"

fun get_import_remapping ::
  "(string, (string, 'j list) dict option) dict \<Rightarrow> (string, 'j list) dict \<Rightarrow> (string, 'j list) dict" where
  "get_import_remapping [] interfaces = interfaces"
| "get_import_remapping ((key, contract_types) # dependencies) interfaces =
     get_import_remapping dependencies
       (add_manifest key (case contract_types of None \<Rightarrow> [] | Some cts \<Rightarrow> cts) interfaces)"

text \<open>
  The request sent to the compiler and its response. In the response a key that the
  code reads with \<^verbatim>\<open>.get(key, {})\<close> is the empty dict when it is absent; the entry of
  a source under \<^verbatim>\<open>sources\<close> is represented by its \<^verbatim>\<open>ast\<close>, if it has one.
\<close>

record 'j input_json =
  language :: string
  settings :: settings_set
  sources :: "(string, string) dict"
  interfaces :: "(string, 'j list) dict option"

record evm_output =
  deployedBytecode :: "(string, string) dict"
  bytecode :: "(string, string) dict"

record 'j contract_output =
  evm :: evm_output
  abi :: "'j option"
  userdoc :: "'j option"
  devdoc :: "'j option"

record 'j compile_result =
  result_contracts :: "(string, (string, 'j contract_output) dict) dict"
  result_sources :: "(string, ASTNode option) dict"

record SourceMapItem =
  start :: "int option"
  length_item :: "int option"
  contract_id :: "int option"
  jump_code :: string

text \<open>The dictionary handed to \<^verbatim>\<open>ContractType.model_validate\<close>.\<close>

record ('j, 'pc) ContractType =
  ct_ast :: "ASTNode option"
  ct_contractName :: string
  ct_sourceId :: string
  ct_deploymentBytecode :: "string option"
  ct_runtimeBytecode :: "string option"
  ct_abi :: "'j option"
  ct_sourcemap :: "string option"
  ct_pcmap :: "'pc option"
  ct_userdoc :: "'j option"
  ct_devdoc :: "'j option"
  ct_dev_messages :: "(int, string) dict"

text \<open>
  What \<^verbatim>\<open>compile\<close> reads besides its arguments: the project; the value that the
  method \<^verbatim>\<open>get_import_remapping\<close> returns (the base method computes it from the
  dependencies, a newer version overrides it and returns the empty dict); the external
  compiler \<^verbatim>\<open>vvm_compile_standard\<close>, which returns a result or fails with a
  \<^verbatim>\<open>VyperError\<close>; \<^verbatim>\<open>SourceMap.parse\<close>; the method \<^verbatim>\<open>_get_pcmap\<close>;
  \<^verbatim>\<open>Content.model_validate\<close>, which numbers the lines of a text;
  \<^verbatim>\<open>re.search(DEV_MSG_PATTERN, line)\<close> followed by \<^verbatim>\<open>group(1)\<close> (no value when
  the line does not match); \<^verbatim>\<open>FUNCTION_AST_TYPES\<close>; and \<^verbatim>\<open>get_relative_path\<close>.
\<close>

record ('j, 'pc) compiler_self =
  project_manager :: project
  import_remapping :: "(string, 'j list) dict"
  vvm_compile_standard :: "'j input_json \<Rightarrow> string \<Rightarrow> Path \<Rightarrow> string + 'j compile_result"
  source_map_parse :: "string \<Rightarrow> SourceMapItem list"
  get_pcmap_method ::
    "string \<Rightarrow> ASTNode option \<Rightarrow> SourceMapItem list \<Rightarrow> string list
       \<Rightarrow> (string, string) dict \<Rightarrow> 'pc"
  content_validate :: "string \<Rightarrow> (int, string) dict"
  dev_msg_search :: "string \<Rightarrow> string option"
  FUNCTION_AST_TYPES :: "string list"
  relative_path :: "Path \<Rightarrow> Path \<Rightarrow> Path"

text \<open>
  The base class's \<^verbatim>\<open>_get_pcmap\<close> passes only the bytecode on to \<^verbatim>\<open>get_pcmap\<close> of
  \<^verbatim>\<open>ape_vyper._utils\<close>.
\<close>

definition base_get_pcmap ::
  "((string, string) dict \<Rightarrow> 'pc) \<Rightarrow> string \<Rightarrow> ASTNode option \<Rightarrow> SourceMapItem list
     \<Rightarrow> string list \<Rightarrow> (string, string) dict \<Rightarrow> 'pc" where
  "base_get_pcmap get_pcmap vyper_version ast src_map opcodes runtime_bytecode =
     get_pcmap runtime_bytecode"

text \<open>
  \<^verbatim>\<open>_parse_ast\<close> classifies the validated tree and returns it; the list of function
  offsets that it also collects is dropped when it returns.
\<close>

definition parse_ast :: "('j, 'pc) compiler_self \<Rightarrow> ASTNode \<Rightarrow> (int, string) dict \<Rightarrow> ASTNode" where
  "parse_ast self ast content = classify_ast (FUNCTION_AST_TYPES self) ast"

text \<open>\<^verbatim>\<open>src_map = list(compressed_src_map.parse())[1:]\<close>\<close>

definition decompress_src_map :: "('j, 'pc) compiler_self \<Rightarrow> string \<Rightarrow> SourceMapItem list" where
  "decompress_src_map self compressed_src_map =
     drop 1 (source_map_parse self compressed_src_map)"

text \<open>The loop over \<^verbatim>\<open>content.root.items()\<close> that fills \<^verbatim>\<open>dev_messages\<close>.\<close>

fun find_dev_messages ::
  "(string \<Rightarrow> string option) \<Rightarrow> (int, string) dict \<Rightarrow> (int, string) dict \<Rightarrow> (int, string) dict" where
  "find_dev_messages search [] dev_messages = dev_messages"
| "find_dev_messages search ((line_no, line) # content) dev_messages =
     (case search line of
        Some group1 \<Rightarrow>
          find_dev_messages search content (dict_set dev_messages line_no (strip group1))
      | None \<Rightarrow> find_dev_messages search content dev_messages)"

text \<open>
  The body of the loop over the contracts of one source.
  \<^verbatim>\<open>result["sources"][source_id]\<close> raises \<^verbatim>\<open>KeyError\<close> for a missing source, and so
  does \<^verbatim>\<open>runtime_bytecode["object"]\<close> for a non-empty runtime bytecode without object.
\<close>

definition build_contract_type ::
  "('j, 'pc) compiler_self \<Rightarrow> string \<Rightarrow> 'j compile_result \<Rightarrow> string \<Rightarrow> (int, string) dict
     \<Rightarrow> string \<Rightarrow> 'j contract_output \<Rightarrow> error + ('j, 'pc) ContractType" where
  "build_contract_type self vyper_version result source_id content name output =
     (case dict_get (result_sources result) source_id of
        None \<Rightarrow> Inl (KeyError source_id)
      | Some source_output \<Rightarrow>
          (let ast = map_option (\<lambda>a. parse_ast self a content) source_output;
               runtime_bytecode = deployedBytecode (evm output);
               opcodes = split_on CHR '' ''
                 (case dict_get runtime_bytecode ''opcodes'' of None \<Rightarrow> [] | Some s \<Rightarrow> s);
               compressed_src_map = dict_get runtime_bytecode ''sourceMap'';
               src_map = map_option (decompress_src_map self) compressed_src_map;
               pcmap = map_option
                 (\<lambda>m. get_pcmap_method self vyper_version ast m opcodes runtime_bytecode) src_map;
               dev_messages = find_dev_messages (dev_msg_search self) content [];
               final_source_id =
                 (if is_absolute (parse_path source_id)
                  then path_str (relative_path self (parse_path source_id)
                                   (path (project_manager self)))
                  else source_id);
               deployment_bytecode = dict_get (bytecode (evm output)) ''object''
           in if runtime_bytecode \<noteq> [] \<and> dict_get runtime_bytecode ''object'' = None
              then Inl (KeyError ''object'')
              else Inr \<lparr> ct_ast = ast,
                         ct_contractName = name,
                         ct_sourceId = final_source_id,
                         ct_deploymentBytecode =
                           (case deployment_bytecode of
                              None \<Rightarrow> None
                            | Some b \<Rightarrow> if b \<noteq> [] then Some b else None),
                         ct_runtimeBytecode = dict_get runtime_bytecode ''object'',
                         ct_abi = abi output,
                         ct_sourcemap = compressed_src_map,
                         ct_pcmap = pcmap,
                         ct_userdoc = userdoc output,
                         ct_devdoc = devdoc output,
                         ct_dev_messages = dev_messages \<rparr>))"

text \<open>
  A generator is the list of what it yields and the exception, if any, that ends it.
  The loop over the contracts of one source:
\<close>

fun compile_contracts ::
  "('j, 'pc) compiler_self \<Rightarrow> string \<Rightarrow> 'j compile_result \<Rightarrow> string \<Rightarrow> (int, string) dict
     \<Rightarrow> (string, 'j contract_output) dict \<Rightarrow> ('j, 'pc) ContractType list \<times> error option" where
  "compile_contracts self vyper_version result source_id content [] = ([], None)"
| "compile_contracts self vyper_version result source_id content ((name, output) # output_items) =
     (case build_contract_type self vyper_version result source_id content name output of
        Inl e \<Rightarrow> ([], Some e)
      | Inr contract_type \<Rightarrow>
          (case compile_contracts self vyper_version result source_id content output_items of
             (cts, e) \<Rightarrow> (contract_type # cts, e)))"

text \<open>
  What a generator does when one part of it runs after another: the second part runs
  only when the first raised nothing.
\<close>

definition then_run :: "'a list \<times> error option \<Rightarrow> 'a list \<times> error option \<Rightarrow> 'a list \<times> error option" where
  "then_run first second =
     (case first of
        (cts, Some e) \<Rightarrow> (cts, Some e)
      | (cts, None) \<Rightarrow> (case second of (cts', e) \<Rightarrow> (cts @ cts', e)))"

text \<open>
  The reconciliation of a returned source id with the request: the id itself when it is
  a key of \<^verbatim>\<open>src_dict\<close>, else the id behind one path separator when that is a key, else
  nothing. The text found under the key comes with it.
\<close>

definition reconcile_source_id :: "(string, string) dict \<Rightarrow> string \<Rightarrow> (string \<times> string) option" where
  "reconcile_source_id src_dict source_id =
     (case dict_get src_dict source_id of
        Some text \<Rightarrow> Some (source_id, text)
      | None \<Rightarrow>
          (case dict_get src_dict (os_path_sep @ source_id) of
             Some text \<Rightarrow> Some (os_path_sep @ source_id, text)
           | None \<Rightarrow> None))"

text \<open>The loop over \<^verbatim>\<open>result["contracts"].items()\<close>.\<close>

fun compile_sources ::
  "('j, 'pc) compiler_self \<Rightarrow> string \<Rightarrow> 'j compile_result \<Rightarrow> (string, string) dict
     \<Rightarrow> (string, (string, 'j contract_output) dict) dict
     \<Rightarrow> ('j, 'pc) ContractType list \<times> error option" where
  "compile_sources self vyper_version result src_dict [] = ([], None)"
| "compile_sources self vyper_version result src_dict ((source_id, output_items) # contracts) =
     (case reconcile_source_id src_dict source_id of
        None \<Rightarrow> compile_sources self vyper_version result src_dict contracts
      | Some (sid, text) \<Rightarrow>
          (case compile_contracts self vyper_version result sid
                  (content_validate self text) output_items of
             (cts, Some e) \<Rightarrow> (cts, Some e)
           | (cts, None) \<Rightarrow>
               (case compile_sources self vyper_version result src_dict contracts of
                  (cts', e) \<Rightarrow> (cts @ cts', e))))"

text \<open>
  The request of one settings group: the key \<^verbatim>\<open>interfaces\<close> is set when the import
  remapping is a non-empty dict.
\<close>

definition make_input_json ::
  "('j, 'pc) compiler_self \<Rightarrow> settings_set \<Rightarrow> (string, string) dict \<Rightarrow> 'j input_json" where
  "make_input_json self settings_set src_dict =
     \<lparr> language = ''Vyper'',
       settings = settings_set,
       sources = src_dict,
       interfaces = (if import_remapping self \<noteq> [] then Some (import_remapping self)
                     else None) \<rparr>"

text \<open>
  A run of \<^verbatim>\<open>compile\<close>: the pairs it yields, the requests it sends to the external
  compiler, in order, and the exception that ends it, if any. The argument
  \<^verbatim>\<open>import_map\<close> is only handed to \<^verbatim>\<open>_get_sources_dictionary\<close>, which does not read
  it, and \<^verbatim>\<open>output_details\<close> only logs; neither is part of the model.
\<close>

record ('j, 'pc) run =
  yielded :: "(('j, 'pc) ContractType \<times> string) list"
  requests :: "'j input_json list"
  raised :: "error option"

fun compile ::
  "('j, 'pc) compiler_self \<Rightarrow> string \<Rightarrow> (string, settings_set) dict \<Rightarrow> ('j, 'pc) run" where
  "compile self vyper_version [] = \<lparr> yielded = [], requests = [], raised = None \<rparr>"
| "compile self vyper_version ((settings_key, settings_set) # settings') =
     (if outputSelection settings_set = [] then compile self vyper_version settings'
      else
        (case get_sources_dictionary (project_manager self)
                (dict_keys (outputSelection settings_set)) of
           Inl e \<Rightarrow> \<lparr> yielded = [], requests = [], raised = Some e \<rparr>
         | Inr src_dict \<Rightarrow>
             (let input_json = make_input_json self settings_set src_dict
              in case vvm_compile_standard self input_json vyper_version
                        (path (project_manager self)) of
                   Inl err \<Rightarrow>
                     \<lparr> yielded = [], requests = [input_json],
                       raised = Some (VyperCompileError err err) \<rparr>
                 | Inr result \<Rightarrow>
                     (case compile_sources self vyper_version result src_dict
                             (result_contracts result) of
                        (cts, Some e) \<Rightarrow>
                          \<lparr> yielded = map (\<lambda>ct. (ct, settings_key)) cts,
                            requests = [input_json], raised = Some e \<rparr>
                      | (cts, None) \<Rightarrow>
                          (let r = compile self vyper_version settings'
                           in \<lparr> yielded = map (\<lambda>ct. (ct, settings_key)) cts @ yielded r,
                                requests = input_json # requests r,
                                raised = raised r \<rparr>)))))"

section \<open>A small project\<close>

text \<open>
  A project under \<^verbatim>\<open>/proj\<close>: \<^verbatim>\<open>token.vy\<close>, which compiles; \<^verbatim>\<open>bad.vy\<close>, which the
  compiler rejects; \<^verbatim>\<open>myinterfaces.vy\<close>, a contract whose name happens to contain the
  word; two interface files, one in the top-level \<^verbatim>\<open>interfaces\<close> directory and one
  in \<^verbatim>\<open>contracts/interfaces\<close>; and \<^verbatim>\<open>binary.vy\<close>, a file that exists and is not
  UTF-8 text. The compiler also reports a contract for \<^verbatim>\<open>ghost.vy\<close>, a source that was
  not in the request. The line of \<^verbatim>\<open>token.vy\<close> ends with a dev message, a no-break
  space (\<^verbatim>\<open>U+00A0\<close>) and a space.
\<close>

definition example_dev_text :: string where
  "example_dev_text = ''dev: foo'' @ [CHR 0xC2, CHR 0xA0, CHR 0x20]"

definition example_token_text :: string where
  "example_token_text = ''assert x  # '' @ example_dev_text"

definition example_files :: "(Path \<times> string) list" where
  "example_files =
     [(Path ''/'' [''proj'', ''token.vy''], example_token_text),
      (Path ''/'' [''proj'', ''bad.vy''], ''y: int257''),
      (Path ''/'' [''proj'', ''myinterfaces.vy''], ''y: uint256''),
      (Path ''/'' [''proj'', ''interfaces'', ''IFace.vy''], ''def f(): view''),
      (Path ''/'' [''proj'', ''contracts'', ''interfaces'', ''IFace.vy''], ''def g(): view'')]"

definition example_project :: project where
  "example_project =
     \<lparr> path = Path ''/'' [''proj''],
       cwd = Path ''/'' [''proj''],
       is_file = (\<lambda>p. p = Path ''/'' [''proj'', ''binary.vy''] \<or> map_of example_files p \<noteq> None),
       read_text =
         (\<lambda>p. if p = Path ''/'' [''proj'', ''binary.vy''] then Inl (UnicodeDecodeError p)
              else case map_of example_files p of
                     None \<Rightarrow> Inl (FileNotFoundError p)
                   | Some src_text \<Rightarrow> Inr src_text),
       output_format = None \<rparr>"

definition example_items :: "SourceMapItem list" where
  "example_items =
     [\<lparr> start = None, length_item = None, contract_id = None, jump_code = ''-'' \<rparr>,
      \<lparr> start = Some 1, length_item = Some 2, contract_id = Some 0, jump_code = ''-'' \<rparr>,
      \<lparr> start = Some 3, length_item = Some 4, contract_id = Some 0, jump_code = ''o'' \<rparr>]"

definition example_output :: "nat contract_output" where
  "example_output =
     \<lparr> evm = \<lparr> deployedBytecode =
                   [(''object'', ''0x6000''), (''opcodes'', ''PUSH1 0x00''),
                    (''sourceMap'', ''-1:-1:0:-;1:2:0;3:4:0:o'')],
                 bytecode = [(''object'', ''0x60'')] \<rparr>,
       abi = Some 7, userdoc = None, devdoc = None \<rparr>"

definition example_result :: "nat compile_result" where
  "example_result =
     \<lparr> result_contracts =
         [(''token.vy'', [(''token'', example_output)]),
          (''ghost.vy'', [(''ghost'', example_output)])],
       result_sources =
         [(''token.vy'', Some (ASTNode ''Module'' UNCLASSIFIED 1 1 [])),
          (''/abs/token.vy'', None)] \<rparr>"

definition example_self :: "(nat, SourceMapItem list) compiler_self" where
  "example_self =
     \<lparr> project_manager = example_project,
       import_remapping =
         get_import_remapping [(''dep'', Some [(''Dependency'', [1, 2])]), (''plain'', None)] [],
       vvm_compile_standard =
         (\<lambda>input_json vyper_version base_path.
            if dict_get (sources input_json) ''bad.vy'' \<noteq> None then Inl ''SyntaxException''
            else Inr example_result),
       source_map_parse =
         (\<lambda>s. if s = ''-1:-1:0:-;1:2:0;3:4:0:o'' then example_items else []),
       get_pcmap_method = (\<lambda>vyper_version ast src_map opcodes bytecode. src_map),
       content_validate = (\<lambda>s. [(1, ''x: uint256''), (2, s)]),
       dev_msg_search =
         (\<lambda>line. if line = example_token_text then Some example_dev_text else None),
       FUNCTION_AST_TYPES = [''FunctionDef''],
       relative_path = (\<lambda>p base. p) \<rparr>"

text \<open>The same compiler with the import remapping of a newer version: none.\<close>

definition example_newer_self :: "(nat, SourceMapItem list) compiler_self" where
  "example_newer_self = example_self \<lparr> import_remapping := [] \<rparr>"

definition example_settings_set :: "string \<Rightarrow> settings_set" where
  "example_settings_set source_id =
     \<lparr> optimize = OBool True,
       outputSelection = [(source_id, [''*''])],
       search_paths = [''.''],
       evmVersion = Some ''paris'' \<rparr>"

definition example_contract_type :: "(nat, SourceMapItem list) ContractType" where
  "example_contract_type =
     \<lparr> ct_ast = Some (ASTNode ''Module'' UNCLASSIFIED 1 1 []),
       ct_contractName = ''token'',
       ct_sourceId = ''token.vy'',
       ct_deploymentBytecode = Some ''0x60'',
       ct_runtimeBytecode = Some ''0x6000'',
       ct_abi = Some 7,
       ct_sourcemap = Some ''-1:-1:0:-;1:2:0;3:4:0:o'',
       ct_pcmap = Some (drop 1 example_items),
       ct_userdoc = None,
       ct_devdoc = None,
       ct_dev_messages = [(2, ''dev: foo'')] \<rparr>"

text \<open>The contract built for a result entry that is reconciled by the prefix.\<close>

definition example_prefixed_contract_type :: "(nat, SourceMapItem list) ContractType" where
  "example_prefixed_contract_type =
     example_contract_type \<lparr> ct_ast := None, ct_sourceId := ''/abs/token.vy'' \<rparr>"

text \<open>
  The resolver on that project: \<^verbatim>\<open>token.vy\<close> has the pragma value \<^verbatim>\<open>False\<close>,
  \<^verbatim>\<open>bad.vy\<close> the pragma \<^verbatim>\<open>gas\<close>, and no source names an EVM version. Of the
  Unicode database the example needs the capital and the small e with acute accent
  (\<^verbatim>\<open>U+00C9\<close>, \<^verbatim>\<open>U+00E9\<close>).
\<close>

definition example_unicode :: unicode_db where
  "example_unicode =
     \<lparr> to_lower_full = (\<lambda>c. if c = [CHR 0xC3, CHR 0x89] then [CHR 0xC3, CHR 0xA9] else c),
       is_cased = (\<lambda>c. c = [CHR 0xC3, CHR 0x89] \<or> c = [CHR 0xC3, CHR 0xA9]),
       is_case_ignorable = (\<lambda>c. False) \<rparr>"

definition example_settings_self :: settings_self where
  "example_settings_self =
     \<lparr> local_project = example_project,
       config_evm_version = None,
       EVM_VERSION_DEFAULT = (\<lambda>version. if version = ''0.3.7'' then Some ''Paris'' else None),
       get_default_optimization = base_get_default_optimization,
       optimizations_map = map_of [(''token.vy'', OBool False), (''bad.vy'', OStr ''gas'')],
       evm_version_map = (\<lambda>source_id. None),
       get_relative_path = (\<lambda>p base. Path [] (drop (length (parts base)) (parts p))),
       getsitepackages = [''/site-packages''],
       unicode_data = example_unicode \<rparr>"

text \<open>The same resolver when every source names an EVM version with a percent sign.\<close>

definition example_percent_self :: settings_self where
  "example_percent_self =
     example_settings_self \<lparr> evm_version_map := (\<lambda>source_id. Some ''a%b'') \<rparr>"

text \<open>The same resolver when every source carries the optimization pragma \<^verbatim>\<open>U+00C9\<close>.\<close>

definition example_accent_self :: settings_self where
  "example_accent_self =
     example_settings_self
       \<lparr> optimizations_map := (\<lambda>source_id. Some (OStr [CHR 0xC3, CHR 0x89])) \<rparr>"

text \<open>The payload that the resolver returns for the group of \<^verbatim>\<open>token.vy\<close>.\<close>

definition example_token_payload :: settings_set where
  "example_token_payload =
     \<lparr> optimize = OBool True,
       outputSelection = [(''token.vy'', [''*''])],
       search_paths = [''/site-packages'', ''.''],
       evmVersion = Some ''paris'' \<rparr>"

text \<open>A call of the resolver over five sources of the project, and what it returns.\<close>

definition example_paths :: "Path list" where
  "example_paths =
     [Path [] [''token.vy''], Path [] [''bad.vy''], Path [] [''myinterfaces.vy''],
      Path [] [''interfaces'', ''IFace.vy''], Path [] [''missing.vy'']]"

definition example_returned :: "(string, settings_set) dict" where
  "example_returned =
     [(''true%paris'', example_token_payload),
      (''gas%paris'',
        \<lparr> optimize = OStr ''gas'',
          outputSelection = [(''bad.vy'', [''*''])],
          search_paths = [''/site-packages'', ''.''],
          evmVersion = Some ''paris'' \<rparr>)]"

section \<open>Dictionaries\<close>

lemma dict_get_dict_set: "dict_get (dict_set d k v) x = (if x = k then Some v else dict_get d x)"
  by (induction d k v rule: dict_set.induct) (auto simp: dict_get_def)

lemma dict_keys_dict_set: "set (dict_keys (dict_set d k v)) = insert k (set (dict_keys d))"
  by (induction d k v rule: dict_set.induct) (simp_all add: dict_keys_def insert_commute)

lemma distinct_dict_set: "distinct (dict_keys d) \<Longrightarrow> distinct (dict_keys (dict_set d k v))"
proof (induction d k v rule: dict_set.induct)
  case (1 k v)
  then show ?case by (simp add: dict_keys_def)
next
  case (2 k' v' d k v)
  show ?case
  proof (cases "k' = k")
    case True
    with 2 show ?thesis by (simp add: dict_keys_def)
  next
    case False
    with 2 have "distinct (dict_keys (dict_set d k v))" and "k' \<notin> set (dict_keys d)"
      by (simp_all add: dict_keys_def)
    with False have "k' \<notin> set (dict_keys (dict_set d k v))"
      by (simp add: dict_keys_dict_set)
    with \<open>distinct (dict_keys (dict_set d k v))\<close> False show ?thesis
      by (simp add: dict_keys_def)
  qed
qed

lemma dict_set_not_Nil: "dict_set d k v \<noteq> []"
  by (cases d) (auto split: if_splits)

lemma dict_get_None_iff: "dict_get d k = None \<longleftrightarrow> k \<notin> set (dict_keys d)"
  by (simp add: dict_get_def dict_keys_def map_of_eq_None_iff)

lemma foldl_dict_set_get:
  "dict_get (foldl (\<lambda>d (k, v). dict_set d k v) d0 kvs) k =
     (case map_of (rev kvs) k of Some v \<Rightarrow> Some v | None \<Rightarrow> dict_get d0 k)"
proof (induction kvs arbitrary: d0)
  case Nil
  then show ?case by simp
next
  case (Cons kv kvs)
  obtain k' v' where kv: "kv = (k', v')" by (cases kv)
  show ?case
    by (simp add: kv Cons.IH dict_get_dict_set map_add_def split: option.splits)
qed

lemma foldl_dict_set_distinct:
  "distinct (dict_keys d0) \<Longrightarrow> distinct (dict_keys (foldl (\<lambda>d (k, v). dict_set d k v) d0 kvs))"
proof (induction kvs arbitrary: d0)
  case Nil
  then show ?case by simp
next
  case (Cons kv kvs)
  obtain k' v' where kv: "kv = (k', v')" by (cases kv)
  from Cons.prems have "distinct (dict_keys (dict_set d0 k' v'))"
    by (rule distinct_dict_set)
  then show ?case
    using Cons.IH by (simp add: kv)
qed

lemma foldl_dict_set_keys:
  "set (dict_keys (foldl (\<lambda>d (k, v). dict_set d k v) d0 kvs)) = set (dict_keys d0) \<union> fst ` set kvs"
proof (induction kvs arbitrary: d0)
  case Nil
  then show ?case by simp
next
  case (Cons kv kvs)
  obtain k' v' where kv: "kv = (k', v')" by (cases kv)
  show ?case
    by (simp add: kv Cons.IH dict_keys_dict_set)
qed

lemma dict_get_dict_of: "dict_get (dict_of kvs) k = map_of (rev kvs) k"
  unfolding dict_of_def foldl_dict_set_get
  by (simp add: dict_get_def split: option.splits)

lemma distinct_dict_of: "distinct (dict_keys (dict_of kvs))"
  unfolding dict_of_def
  by (rule foldl_dict_set_distinct) (simp add: dict_keys_def)

lemma dict_keys_dict_of: "set (dict_keys (dict_of kvs)) = fst ` set kvs"
  unfolding dict_of_def foldl_dict_set_keys
  by (simp add: dict_keys_def)

section \<open>Properties of the classifier\<close>

lemma nodes_classify_ast:
  "map node_fields (nodes (classify_ast fts t)) = map (classified_fields fts) (nodes t)"
proof (induction t)
  case (ASTNode t c l e ch)
  have kids: "map (map node_fields \<circ> (nodes \<circ> classify_ast fts)) ch =
        map (map (classified_fields fts) \<circ> nodes) ch"
    using ASTNode.IH by (induction ch) simp_all
  have top: "node_fields (ASTNode t (if t \<in> set fts then FUNCTION else c) l e
                 (map (classify_ast fts) ch)) = classified_fields fts (ASTNode t c l e ch)"
    by (simp add: node_fields_def classified_fields_def)
  show ?case
    by (simp only: classify_ast.simps nodes.simps list.map top map_concat map_map kids)
qed

lemma unclassified_classify_ast: "unclassified (classify_ast fts t) = unclassified t"
  by (induction t) simp

lemma length_nodes_classify_ast: "length (nodes (classify_ast fts t)) = length (nodes t)"
  using arg_cong [OF nodes_classify_ast, of length fts t] by simp

text \<open>
  C7. After \<^verbatim>\<open>_classify_ast\<close>, every node of the tree, at any depth, whose type tag is
  one of the function types is classified \<^verbatim>\<open>FUNCTION\<close>. Node by node, in the same
  order, the tag, the line span and the number of children are what they were, and the
  classification changed only where the tag is a function type; the number of nodes is
  the same, and so is the tree once classifications are ignored.
\<close>

theorem classify_ast_frame:
  "(\<forall>n \<in> set (nodes (classify_ast fts t)). ast_type n \<in> set fts \<longrightarrow> classification n = FUNCTION)
   \<and> map node_fields (nodes (classify_ast fts t)) = map (classified_fields fts) (nodes t)
   \<and> length (nodes (classify_ast fts t)) = length (nodes t)
   \<and> unclassified (classify_ast fts t) = unclassified t"
proof -
  have fields: "map node_fields (nodes (classify_ast fts t)) = map (classified_fields fts) (nodes t)"
    by (rule nodes_classify_ast)
  have "classification n = FUNCTION"
    if n: "n \<in> set (nodes (classify_ast fts t))" and tag: "ast_type n \<in> set fts" for n
  proof -
    from n have "node_fields n \<in> set (map node_fields (nodes (classify_ast fts t)))"
      by simp
    then obtain m where "node_fields n = classified_fields fts m"
      unfolding fields by auto
    with tag show ?thesis
      by (simp add: node_fields_def classified_fields_def split: if_splits)
  qed
  then show ?thesis
    using fields length_nodes_classify_ast unclassified_classify_ast by blast
qed

theorem classify_ast_frame_witness:
  "ASTNode ''FunctionDef'' FUNCTION 2 4 [ASTNode ''Name'' FUNCTION 2 2 []]
     \<in> set (nodes (classify_ast [''FunctionDef'', ''Name'']
          (ASTNode ''Module'' UNCLASSIFIED 1 5
             [ASTNode ''FunctionDef'' UNCLASSIFIED 2 4 [ASTNode ''Name'' UNCLASSIFIED 2 2 []],
              ASTNode ''Assign'' UNCLASSIFIED 5 5 []])))
   \<and> ast_type (ASTNode ''FunctionDef'' FUNCTION 2 4 [ASTNode ''Name'' FUNCTION 2 2 []])
       \<in> set [''FunctionDef'', ''Name'']
   \<and> classification (ASTNode ''FunctionDef'' FUNCTION 2 4 [ASTNode ''Name'' FUNCTION 2 2 []]) = FUNCTION
   \<and> length (nodes (classify_ast [''FunctionDef'', ''Name'']
          (ASTNode ''Module'' UNCLASSIFIED 1 5
             [ASTNode ''FunctionDef'' UNCLASSIFIED 2 4 [ASTNode ''Name'' UNCLASSIFIED 2 2 []],
              ASTNode ''Assign'' UNCLASSIFIED 5 5 []]))) = 4"
  using classify_ast_frame [of "[''FunctionDef'', ''Name'']"
          "ASTNode ''Module'' UNCLASSIFIED 1 5
             [ASTNode ''FunctionDef'' UNCLASSIFIED 2 4 [ASTNode ''Name'' UNCLASSIFIED 2 2 []],
              ASTNode ''Assign'' UNCLASSIFIED 5 5 []]"]
  by simp

section \<open>Properties of the compilation driver\<close>

lemma find_dev_messages_get:
  "distinct (dict_keys content) \<Longrightarrow>
   dict_get (find_dev_messages search content dm) line_no =
     (case dict_get content line_no of
        None \<Rightarrow> dict_get dm line_no
      | Some line \<Rightarrow>
          (case search line of
             None \<Rightarrow> dict_get dm line_no
           | Some group1 \<Rightarrow> Some (strip group1)))"
proof (induction content arbitrary: dm)
  case Nil
  then show ?case by (simp add: dict_get_def)
next
  case (Cons entry content)
  obtain l line where entry: "entry = (l, line)" by (cases entry)
  from Cons.prems have fresh: "dict_get content l = None" and dist: "distinct (dict_keys content)"
    by (simp_all add: entry dict_keys_def dict_get_def map_of_eq_None_iff)
  show ?case
  proof (cases "search line")
    case None
    then show ?thesis
      using Cons.IH [OF dist, of dm] fresh
      by (auto simp: entry dict_get_def split: option.splits)
  next
    case (Some g)
    then show ?thesis
      using Cons.IH [OF dist, of "dict_set dm l (strip g)"] fresh
      by (auto simp: entry dict_get_def dict_get_dict_set [unfolded dict_get_def]
               split: option.splits)
  qed
qed

lemma build_contract_type_fields:
  assumes "build_contract_type self v result sid content name output = Inr ct"
  shows "ct_dev_messages ct = find_dev_messages (dev_msg_search self) content []"
    and "ct_sourcemap ct = dict_get (deployedBytecode (evm output)) ''sourceMap''"
    and "ct_pcmap ct = map_option
           (\<lambda>sm. get_pcmap_method self v (ct_ast ct) (decompress_src_map self sm)
              (split_on CHR '' '' (case dict_get (deployedBytecode (evm output)) ''opcodes'' of
                                     None \<Rightarrow> [] | Some s \<Rightarrow> s))
              (deployedBytecode (evm output)))
           (dict_get (deployedBytecode (evm output)) ''sourceMap'')"
    and "ct_contractName ct = name"
  using assms
  by (auto simp: build_contract_type_def Let_def option.map_comp comp_def
           split: option.splits if_splits)

lemma compile_contracts_built:
  "ct \<in> set (fst (compile_contracts self v result sid content items)) \<Longrightarrow>
   \<exists>name output. (name, output) \<in> set items \<and>
      build_contract_type self v result sid content name output = Inr ct"
proof (induction items)
  case Nil
  then show ?case by simp
next
  case (Cons item items)
  obtain name out where item: "item = (name, out)" by (cases item)
  from Cons show ?case
    by (auto simp: item split: sum.splits prod.splits)
qed

lemma compile_sources_built:
  "ct \<in> set (fst (compile_sources self v result src_dict contracts)) \<Longrightarrow>
   \<exists>source_id items sid src_text name output.
      (source_id, items) \<in> set contracts \<and>
      reconcile_source_id src_dict source_id = Some (sid, src_text) \<and>
      (name, output) \<in> set items \<and>
      build_contract_type self v result sid (content_validate self src_text) name output = Inr ct"
proof (induction contracts)
  case Nil
  then show ?case by simp
next
  case (Cons entry contracts)
  obtain source_id items where entry: "entry = (source_id, items)" by (cases entry)
  have from_rest: ?case
    if "ct \<in> set (fst (compile_sources self v result src_dict contracts))"
  proof -
    from Cons.IH [OF that] obtain source_id' items' sid src_text name out where
      "(source_id', items') \<in> set contracts"
      "reconcile_source_id src_dict source_id' = Some (sid, src_text)"
      "(name, out) \<in> set items'"
      "build_contract_type self v result sid (content_validate self src_text) name out = Inr ct"
      by blast
    then have "(source_id', items') \<in> set (entry # contracts) \<and>
      reconcile_source_id src_dict source_id' = Some (sid, src_text) \<and>
      (name, out) \<in> set items' \<and>
      build_contract_type self v result sid (content_validate self src_text) name out = Inr ct"
      by simp
    then show ?thesis by blast
  qed
  show ?case
  proof (cases "reconcile_source_id src_dict source_id")
    case None
    with Cons.prems have "ct \<in> set (fst (compile_sources self v result src_dict contracts))"
      by (simp add: entry)
    then show ?thesis by (rule from_rest)
  next
    case (Some st)
    obtain sid src_text where st: "st = (sid, src_text)" by (cases st)
    obtain cts e where cc: "compile_contracts self v result sid (content_validate self src_text) items = (cts, e)"
      by (cases "compile_contracts self v result sid (content_validate self src_text) items")
    obtain cts' e' where cs: "compile_sources self v result src_dict contracts = (cts', e')"
      by (cases "compile_sources self v result src_dict contracts")
    from Cons.prems have "ct \<in> set cts \<or> ct \<in> set cts'"
      by (cases e) (auto simp: entry Some st cc cs)
    then show ?thesis
    proof
      assume "ct \<in> set cts"
      then have "ct \<in> set (fst (compile_contracts self v result sid (content_validate self src_text) items))"
        by (simp add: cc)
      from compile_contracts_built [OF this] obtain name out where
        "(name, out) \<in> set items"
        "build_contract_type self v result sid (content_validate self src_text) name out = Inr ct"
        by blast
      then have "(source_id, items) \<in> set (entry # contracts) \<and>
        reconcile_source_id src_dict source_id = Some (sid, src_text) \<and>
        (name, out) \<in> set items \<and>
        build_contract_type self v result sid (content_validate self src_text) name out = Inr ct"
        by (simp add: entry Some st)
      then show ?thesis by blast
    next
      assume "ct \<in> set cts'"
      then have "ct \<in> set (fst (compile_sources self v result src_dict contracts))"
        by (simp add: cs)
      then show ?thesis by (rule from_rest)
    qed
  qed
qed

lemma compile_Cons_skip:
  "outputSelection settings_set = [] \<Longrightarrow>
   compile self v ((settings_key, settings_set) # rest) = compile self v rest"
  by simp

lemma compile_Cons_sources_error:
  "outputSelection settings_set \<noteq> [] \<Longrightarrow>
   get_sources_dictionary (project_manager self) (dict_keys (outputSelection settings_set)) = Inl e \<Longrightarrow>
   compile self v ((settings_key, settings_set) # rest) =
     \<lparr> yielded = [], requests = [], raised = Some e \<rparr>"
  by simp

lemma compile_Cons_vyper_error:
  "outputSelection settings_set \<noteq> [] \<Longrightarrow>
   get_sources_dictionary (project_manager self) (dict_keys (outputSelection settings_set)) = Inr src_dict \<Longrightarrow>
   vvm_compile_standard self (make_input_json self settings_set src_dict) v
      (path (project_manager self)) = Inl err \<Longrightarrow>
   compile self v ((settings_key, settings_set) # rest) =
     \<lparr> yielded = [], requests = [make_input_json self settings_set src_dict],
       raised = Some (VyperCompileError err err) \<rparr>"
  by (simp add: Let_def)

lemma compile_Cons_result:
  "outputSelection settings_set \<noteq> [] \<Longrightarrow>
   get_sources_dictionary (project_manager self) (dict_keys (outputSelection settings_set)) = Inr src_dict \<Longrightarrow>
   vvm_compile_standard self (make_input_json self settings_set src_dict) v
      (path (project_manager self)) = Inr result \<Longrightarrow>
   compile_sources self v result src_dict (result_contracts result) = (cts, e) \<Longrightarrow>
   compile self v ((settings_key, settings_set) # rest) =
     (case e of
        Some e' \<Rightarrow> \<lparr> yielded = map (\<lambda>ct. (ct, settings_key)) cts,
                     requests = [make_input_json self settings_set src_dict],
                     raised = Some e' \<rparr>
      | None \<Rightarrow> \<lparr> yielded = map (\<lambda>ct. (ct, settings_key)) cts @ yielded (compile self v rest),
                  requests = make_input_json self settings_set src_dict # requests (compile self v rest),
                  raised = raised (compile self v rest) \<rparr>)"
  by (simp add: Let_def split: option.splits)

declare compile.simps(2) [simp del]

lemma run_eta: "\<lparr> yielded = yielded r, requests = requests r, raised = raised r \<rparr> = (r :: ('j, 'pc) run)"
  by (cases r) simp

lemma compile_append:
  "raised (compile self v pre) = None \<Longrightarrow>
   compile self v (pre @ rest) =
     \<lparr> yielded = yielded (compile self v pre) @ yielded (compile self v rest),
       requests = requests (compile self v pre) @ requests (compile self v rest),
       raised = raised (compile self v rest) \<rparr>"
proof (induction pre)
  case Nil
  show ?case by (simp add: run_eta)
next
  case (Cons g pre)
  obtain k ss where g: "g = (k, ss)" by (cases g)
  show ?case
  proof (cases "outputSelection ss = []")
    case True
    with Cons show ?thesis by (simp add: g compile_Cons_skip)
  next
    case sel: False
    show ?thesis
    proof (cases "get_sources_dictionary (project_manager self) (dict_keys (outputSelection ss))")
      case (Inl e)
      with Cons.prems show ?thesis by (simp add: g compile_Cons_sources_error [OF sel Inl])
    next
      case (Inr src_dict)
      show ?thesis
      proof (cases "vvm_compile_standard self (make_input_json self ss src_dict) v
                      (path (project_manager self))")
        case (Inl err)
        with Cons.prems show ?thesis by (simp add: g compile_Cons_vyper_error [OF sel Inr Inl])
      next
        case res: (Inr result)
        obtain cts e where cs:
          "compile_sources self v result src_dict (result_contracts result) = (cts, e)"
          by (cases "compile_sources self v result src_dict (result_contracts result)")
        note step = compile_Cons_result [OF sel Inr res cs]
        show ?thesis
        proof (cases e)
          case None
          with Cons.prems have "raised (compile self v pre) = None"
            by (simp add: g step)
          from Cons.IH [OF this] show ?thesis
            using None by (simp add: g step)
        next
          case (Some e')
          with Cons.prems show ?thesis by (simp add: g step)
        qed
      qed
    qed
  qed
qed

lemma compile_yielded_keys:
  "(ct, k) \<in> set (yielded (compile self v settings')) \<Longrightarrow> k \<in> set (dict_keys settings')"
proof (induction settings')
  case Nil
  then show ?case by simp
next
  case (Cons g rest)
  obtain k' ss where g: "g = (k', ss)" by (cases g)
  show ?case
  proof (cases "outputSelection ss = []")
    case True
    with Cons show ?thesis by (simp add: g dict_keys_def compile_Cons_skip)
  next
    case sel: False
    show ?thesis
    proof (cases "get_sources_dictionary (project_manager self) (dict_keys (outputSelection ss))")
      case (Inl e)
      with Cons.prems show ?thesis by (simp add: g compile_Cons_sources_error [OF sel Inl])
    next
      case (Inr src_dict)
      show ?thesis
      proof (cases "vvm_compile_standard self (make_input_json self ss src_dict) v
                      (path (project_manager self))")
        case (Inl err)
        with Cons.prems show ?thesis by (simp add: g compile_Cons_vyper_error [OF sel Inr Inl])
      next
        case res: (Inr result)
        obtain cts e where cs:
          "compile_sources self v result src_dict (result_contracts result) = (cts, e)"
          by (cases "compile_sources self v result src_dict (result_contracts result)")
        note step = compile_Cons_result [OF sel Inr res cs]
        from Cons.prems have "k = k' \<or> (ct, k) \<in> set (yielded (compile self v rest))"
          by (cases e) (auto simp: g step)
        with Cons.IH show ?thesis
          by (auto simp: g dict_keys_def)
      qed
    qed
  qed
qed

lemma compile_requests:
  "r \<in> set (requests (compile self v settings')) \<Longrightarrow>
   \<exists>k ss src_dict. (k, ss) \<in> set settings' \<and> outputSelection ss \<noteq> [] \<and>
      get_sources_dictionary (project_manager self) (dict_keys (outputSelection ss)) = Inr src_dict \<and>
      r = make_input_json self ss src_dict"
proof (induction settings')
  case Nil
  then show ?case by simp
next
  case (Cons g rest)
  obtain k' ss where g: "g = (k', ss)" by (cases g)
  have from_rest: ?case if "r \<in> set (requests (compile self v rest))"
  proof -
    from Cons.IH [OF that] obtain k ss' src_dict where
      "(k, ss') \<in> set rest" "outputSelection ss' \<noteq> []"
      "get_sources_dictionary (project_manager self) (dict_keys (outputSelection ss')) = Inr src_dict"
      "r = make_input_json self ss' src_dict"
      by blast
    then have "(k, ss') \<in> set (g # rest) \<and> outputSelection ss' \<noteq> [] \<and>
      get_sources_dictionary (project_manager self) (dict_keys (outputSelection ss')) = Inr src_dict \<and>
      r = make_input_json self ss' src_dict"
      by simp
    then show ?thesis by blast
  qed
  show ?case
  proof (cases "outputSelection ss = []")
    case True
    with Cons.prems have "r \<in> set (requests (compile self v rest))"
      by (simp add: g compile_Cons_skip)
    then show ?thesis by (rule from_rest)
  next
    case sel: False
    show ?thesis
    proof (cases "get_sources_dictionary (project_manager self) (dict_keys (outputSelection ss))")
      case (Inl e)
      with Cons.prems show ?thesis by (simp add: g compile_Cons_sources_error [OF sel Inl])
    next
      case (Inr src_dict)
      have here: ?thesis if "r = make_input_json self ss src_dict"
      proof -
        have "(k', ss) \<in> set (g # rest) \<and> outputSelection ss \<noteq> [] \<and>
          get_sources_dictionary (project_manager self) (dict_keys (outputSelection ss)) = Inr src_dict \<and>
          r = make_input_json self ss src_dict"
          using sel Inr that by (simp add: g)
        then show ?thesis by blast
      qed
      show ?thesis
      proof (cases "vvm_compile_standard self (make_input_json self ss src_dict) v
                      (path (project_manager self))")
        case (Inl err)
        with Cons.prems have "r = make_input_json self ss src_dict"
          by (simp add: g compile_Cons_vyper_error [OF sel Inr Inl])
        then show ?thesis by (rule here)
      next
        case res: (Inr result)
        obtain cts e where cs:
          "compile_sources self v result src_dict (result_contracts result) = (cts, e)"
          by (cases "compile_sources self v result src_dict (result_contracts result)")
        note step = compile_Cons_result [OF sel Inr res cs]
        from Cons.prems have "r = make_input_json self ss src_dict
            \<or> r \<in> set (requests (compile self v rest))"
          by (cases e) (auto simp: g step)
        then show ?thesis using here from_rest by blast
      qed
    qed
  qed
qed

text \<open>
  Every contract that \<^verbatim>\<open>compile\<close> yields is the value of the loop body for a contract
  that the compiler returned for a reconciled source of a group.
\<close>

lemma compile_yielded_built:
  "(ct, k) \<in> set (yielded (compile self v settings')) \<Longrightarrow>
   \<exists>ss src_dict result source_id items sid src_text name output.
      (k, ss) \<in> set settings' \<and>
      get_sources_dictionary (project_manager self) (dict_keys (outputSelection ss)) = Inr src_dict \<and>
      vvm_compile_standard self (make_input_json self ss src_dict) v
        (path (project_manager self)) = Inr result \<and>
      (source_id, items) \<in> set (result_contracts result) \<and>
      reconcile_source_id src_dict source_id = Some (sid, src_text) \<and>
      (name, output) \<in> set items \<and>
      build_contract_type self v result sid (content_validate self src_text) name output = Inr ct"
proof (induction settings')
  case Nil
  then show ?case by simp
next
  case (Cons g rest)
  obtain k' ss where g: "g = (k', ss)" by (cases g)
  have from_rest: ?case if "(ct, k) \<in> set (yielded (compile self v rest))"
  proof -
    from Cons.IH [OF that] obtain ss' src_dict result source_id items sid src_text name out where
      "(k, ss') \<in> set rest"
      "get_sources_dictionary (project_manager self) (dict_keys (outputSelection ss')) = Inr src_dict"
      "vvm_compile_standard self (make_input_json self ss' src_dict) v
        (path (project_manager self)) = Inr result"
      "(source_id, items) \<in> set (result_contracts result)"
      "reconcile_source_id src_dict source_id = Some (sid, src_text)"
      "(name, out) \<in> set items"
      "build_contract_type self v result sid (content_validate self src_text) name out = Inr ct"
      by blast
    then have "(k, ss') \<in> set (g # rest) \<and>
      get_sources_dictionary (project_manager self) (dict_keys (outputSelection ss')) = Inr src_dict \<and>
      vvm_compile_standard self (make_input_json self ss' src_dict) v
        (path (project_manager self)) = Inr result \<and>
      (source_id, items) \<in> set (result_contracts result) \<and>
      reconcile_source_id src_dict source_id = Some (sid, src_text) \<and>
      (name, out) \<in> set items \<and>
      build_contract_type self v result sid (content_validate self src_text) name out = Inr ct"
      by simp
    then show ?thesis by blast
  qed
  show ?case
  proof (cases "outputSelection ss = []")
    case True
    with Cons.prems have "(ct, k) \<in> set (yielded (compile self v rest))"
      by (simp add: g compile_Cons_skip)
    then show ?thesis by (rule from_rest)
  next
    case sel: False
    show ?thesis
    proof (cases "get_sources_dictionary (project_manager self) (dict_keys (outputSelection ss))")
      case (Inl e)
      with Cons.prems show ?thesis by (simp add: g compile_Cons_sources_error [OF sel Inl])
    next
      case (Inr src_dict)
      show ?thesis
      proof (cases "vvm_compile_standard self (make_input_json self ss src_dict) v
                      (path (project_manager self))")
        case (Inl err)
        with Cons.prems show ?thesis by (simp add: g compile_Cons_vyper_error [OF sel Inr Inl])
      next
        case res: (Inr result)
        obtain cts e where cs:
          "compile_sources self v result src_dict (result_contracts result) = (cts, e)"
          by (cases "compile_sources self v result src_dict (result_contracts result)")
        note step = compile_Cons_result [OF sel Inr res cs]
        from Cons.prems have "k = k' \<and> ct \<in> set cts
            \<or> (ct, k) \<in> set (yielded (compile self v rest))"
          by (cases e) (auto simp: g step)
        then show ?thesis
        proof
          assume here: "k = k' \<and> ct \<in> set cts"
          then have "ct \<in> set (fst (compile_sources self v result src_dict (result_contracts result)))"
            by (simp add: cs)
          from compile_sources_built [OF this] obtain source_id items sid src_text name out where
            "(source_id, items) \<in> set (result_contracts result)"
            "reconcile_source_id src_dict source_id = Some (sid, src_text)"
            "(name, out) \<in> set items"
            "build_contract_type self v result sid (content_validate self src_text) name out = Inr ct"
            by blast
          with here Inr res have "(k, ss) \<in> set (g # rest) \<and>
            get_sources_dictionary (project_manager self) (dict_keys (outputSelection ss)) = Inr src_dict \<and>
            vvm_compile_standard self (make_input_json self ss src_dict) v
              (path (project_manager self)) = Inr result \<and>
            (source_id, items) \<in> set (result_contracts result) \<and>
            reconcile_source_id src_dict source_id = Some (sid, src_text) \<and>
            (name, out) \<in> set items \<and>
            build_contract_type self v result sid (content_validate self src_text) name out = Inr ct"
            by (simp add: g)
          then show ?thesis by blast
        next
          assume "(ct, k) \<in> set (yielded (compile self v rest))"
          then show ?thesis by (rule from_rest)
        qed
      qed
    qed
  qed
qed

lemma dict_get_Some_key: "dict_get d k = Some v \<Longrightarrow> k \<in> set (dict_keys d)"
  using dict_get_None_iff [of d k] by auto

lemma compile_first_request:
  assumes sel: "outputSelection settings_set \<noteq> []"
    and src: "get_sources_dictionary (project_manager self)
                (dict_keys (outputSelection settings_set)) = Inr src_dict"
  shows "make_input_json self settings_set src_dict
           \<in> set (requests (compile self v ((settings_key, settings_set) # rest)))"
proof (cases "vvm_compile_standard self (make_input_json self settings_set src_dict) v
                (path (project_manager self))")
  case (Inl err)
  show ?thesis
    by (simp add: compile_Cons_vyper_error [OF sel src Inl])
next
  case (Inr result)
  obtain cts e where cs:
    "compile_sources self v result src_dict (result_contracts result) = (cts, e)"
    by (cases "compile_sources self v result src_dict (result_contracts result)")
  show ?thesis
    by (cases e) (simp_all add: compile_Cons_result [OF sel src Inr cs])
qed

text \<open>
  When the base \<^verbatim>\<open>get_import_remapping\<close> returns the empty dict: no dependency has a
  contract type.
\<close>

lemma add_manifest_Nil_iff: "add_manifest key cts ifaces = [] \<longleftrightarrow> cts = [] \<and> ifaces = []"
proof (induction cts arbitrary: ifaces)
  case Nil
  then show ?case by simp
next
  case (Cons ct cts)
  obtain name abi_list where ct: "ct = (name, abi_list)" by (cases ct)
  show ?case
    by (simp add: ct Cons.IH dict_set_not_Nil)
qed

lemma get_import_remapping_Nil_iff:
  "get_import_remapping dependencies ifaces = [] \<longleftrightarrow>
     ifaces = [] \<and> (\<forall>(key, cts) \<in> set dependencies. cts = None \<or> cts = Some [])"
proof (induction dependencies arbitrary: ifaces)
  case Nil
  then show ?case by simp
next
  case (Cons dep dependencies)
  obtain key cts where dep: "dep = (key, cts)" by (cases dep)
  show ?case
    by (cases cts) (auto simp: dep Cons.IH add_manifest_Nil_iff)
qed

text \<open>
  C1. When the runtime bytecode of a compiled contract has a source map, the map handed to
  the PC-map construction is the parsed sequence without its first entry: one entry
  shorter, and entry \<open>i\<close> of it is entry \<open>i + 1\<close> of the parsed sequence.
\<close>

theorem src_map_drops_first_entry:
  assumes "build_contract_type self v result sid content name output = Inr ct"
    and "dict_get (deployedBytecode (evm output)) ''sourceMap'' = Some sm"
  shows "ct_pcmap ct = Some (get_pcmap_method self v (ct_ast ct) (decompress_src_map self sm)
            (split_on CHR '' '' (case dict_get (deployedBytecode (evm output)) ''opcodes'' of
                                   None \<Rightarrow> [] | Some s \<Rightarrow> s))
            (deployedBytecode (evm output)))
       \<and> decompress_src_map self sm = drop 1 (source_map_parse self sm)
       \<and> take 1 (source_map_parse self sm) @ decompress_src_map self sm = source_map_parse self sm
       \<and> length (decompress_src_map self sm) = length (source_map_parse self sm) - 1
       \<and> (\<forall>i < length (decompress_src_map self sm).
             decompress_src_map self sm ! i = source_map_parse self sm ! Suc i)"
proof -
  have "ct_pcmap ct = Some (get_pcmap_method self v (ct_ast ct) (decompress_src_map self sm)
            (split_on CHR '' '' (case dict_get (deployedBytecode (evm output)) ''opcodes'' of
                                   None \<Rightarrow> [] | Some s \<Rightarrow> s))
            (deployedBytecode (evm output)))"
    using build_contract_type_fields(3) [OF assms(1)] assms(2) by simp
  then show ?thesis
    by (simp add: decompress_src_map_def)
qed

lemma concat_utf8_chars: "concat (utf8_chars s) = s"
  by (induction s) (auto split: list.splits)

lemma strip_chars_decompose:
  "\<exists>pre post. cs = pre @ strip_chars cs @ post
      \<and> (\<forall>c \<in> set pre. isspace c) \<and> (\<forall>c \<in> set post. isspace c)"
proof -
  let ?ds = "dropWhile isspace cs"
  have "rev ?ds = takeWhile isspace (rev ?ds) @ dropWhile isspace (rev ?ds)"
    by simp
  then have "rev (rev ?ds) =
      rev (dropWhile isspace (rev ?ds)) @ rev (takeWhile isspace (rev ?ds))"
    by (metis rev_append)
  then have ds: "?ds = strip_chars cs @ rev (takeWhile isspace (rev ?ds))"
    by (simp add: strip_chars_def)
  have "cs = takeWhile isspace cs @ ?ds"
    by simp
  with ds have "cs = takeWhile isspace cs @ strip_chars cs @ rev (takeWhile isspace (rev ?ds))"
    by simp
  moreover have "\<forall>c \<in> set (takeWhile isspace cs). isspace c"
    by (auto dest: set_takeWhileD)
  moreover have "\<forall>c \<in> set (rev (takeWhile isspace (rev ?ds))). isspace c"
    by (auto dest: set_takeWhileD)
  ultimately show ?thesis by blast
qed

lemma last_dropWhile_eq: "dropWhile P xs \<noteq> [] \<Longrightarrow> last (dropWhile P xs) = last xs"
  by (induction xs) (auto split: if_splits)

lemma strip_chars_ends:
  assumes "strip_chars cs \<noteq> []"
  shows "\<not> isspace (hd (strip_chars cs)) \<and> \<not> isspace (last (strip_chars cs))"
proof -
  let ?ds = "dropWhile isspace cs"
  let ?es = "dropWhile isspace (rev ?ds)"
  from assms have es: "?es \<noteq> []" by (simp add: strip_chars_def)
  have ds: "?ds \<noteq> []"
  proof
    assume "?ds = []"
    then have "?es = []" by (simp only: rev.simps dropWhile.simps)
    with es show False by (simp only:)
  qed
  have "last (strip_chars cs) = hd ?es"
    using es by (simp add: strip_chars_def last_rev)
  moreover have "\<not> isspace (hd ?es)"
    using es by (rule hd_dropWhile)
  moreover have "hd (strip_chars cs) = last ?es"
    using es by (simp add: strip_chars_def hd_rev)
  moreover have "last ?es = hd ?ds"
    using es ds by (simp add: last_dropWhile_eq last_rev)
  moreover have "\<not> isspace (hd ?ds)"
    using ds by (rule hd_dropWhile)
  ultimately show ?thesis by simp
qed

lemma strip_pinned:
  "\<exists>pre mid post. utf8_chars g = pre @ mid @ post \<and> strip g = concat mid
      \<and> (\<forall>c \<in> set pre. isspace c) \<and> (\<forall>c \<in> set post. isspace c)
      \<and> (mid \<noteq> [] \<longrightarrow> \<not> isspace (hd mid) \<and> \<not> isspace (last mid))
      \<and> g = concat pre @ strip g @ concat post"
proof -
  from strip_chars_decompose [of "utf8_chars g"] obtain pre post where
    dec: "utf8_chars g = pre @ strip_chars (utf8_chars g) @ post"
    and ws: "\<forall>c \<in> set pre. isspace c" "\<forall>c \<in> set post. isspace c"
    by blast
  have "concat (utf8_chars g) = concat pre @ concat (strip_chars (utf8_chars g)) @ concat post"
    by (subst dec) simp
  then have whole: "g = concat pre @ strip g @ concat post"
    by (simp add: concat_utf8_chars strip_def)
  have ends: "strip_chars (utf8_chars g) \<noteq> [] \<longrightarrow>
      \<not> isspace (hd (strip_chars (utf8_chars g))) \<and> \<not> isspace (last (strip_chars (utf8_chars g)))"
    using strip_chars_ends by blast
  have "utf8_chars g = pre @ strip_chars (utf8_chars g) @ post
      \<and> strip g = concat (strip_chars (utf8_chars g))
      \<and> (\<forall>c \<in> set pre. isspace c) \<and> (\<forall>c \<in> set post. isspace c)
      \<and> (strip_chars (utf8_chars g) \<noteq> [] \<longrightarrow>
            \<not> isspace (hd (strip_chars (utf8_chars g))) \<and> \<not> isspace (last (strip_chars (utf8_chars g))))
      \<and> g = concat pre @ strip g @ concat post"
    using dec ws ends whole by (simp add: strip_def)
  then show ?thesis by blast
qed

text \<open>
  C8. The \<^verbatim>\<open>dev_messages\<close> of a compiled contract have an entry at a line number
  exactly when the content has a line there that matches the dev-message pattern, and
  the entry is the captured text, stripped; a line that does not match has no entry.
  The stripped text is the captured text without the whitespace characters at its two
  ends: what is cut off is whitespace only, and what remains neither begins nor ends
  with a whitespace character.
\<close>

theorem dev_messages_exact:
  assumes "build_contract_type self v result sid content name output = Inr ct"
    and "distinct (dict_keys content)"
  shows "dict_get (ct_dev_messages ct) line_no =
           (case dict_get content line_no of
              None \<Rightarrow> None
            | Some line \<Rightarrow> map_option strip (dev_msg_search self line))
       \<and> (\<forall>line group1. dict_get content line_no = Some line
              \<and> dev_msg_search self line = Some group1 \<longrightarrow>
            (\<exists>pre mid post.
                dict_get (ct_dev_messages ct) line_no = Some (concat mid)
              \<and> utf8_chars group1 = pre @ mid @ post
              \<and> (\<forall>c \<in> set pre. isspace c) \<and> (\<forall>c \<in> set post. isspace c)
              \<and> (mid \<noteq> [] \<longrightarrow> \<not> isspace (hd mid) \<and> \<not> isspace (last mid))
              \<and> group1 = concat pre @ concat mid @ concat post))"
proof -
  have "dict_get (ct_dev_messages ct) line_no =
          dict_get (find_dev_messages (dev_msg_search self) content []) line_no"
    using build_contract_type_fields(1) [OF assms(1)] by simp
  also have "\<dots> = (case dict_get content line_no of
              None \<Rightarrow> None
            | Some line \<Rightarrow> map_option strip (dev_msg_search self line))"
    unfolding find_dev_messages_get [OF assms(2)]
    by (simp add: dict_get_def split: option.splits)
  finally have entry: "dict_get (ct_dev_messages ct) line_no =
           (case dict_get content line_no of
              None \<Rightarrow> None
            | Some line \<Rightarrow> map_option strip (dev_msg_search self line))" .
  have "\<exists>pre mid post.
                dict_get (ct_dev_messages ct) line_no = Some (concat mid)
              \<and> utf8_chars group1 = pre @ mid @ post
              \<and> (\<forall>c \<in> set pre. isspace c) \<and> (\<forall>c \<in> set post. isspace c)
              \<and> (mid \<noteq> [] \<longrightarrow> \<not> isspace (hd mid) \<and> \<not> isspace (last mid))
              \<and> group1 = concat pre @ concat mid @ concat post"
    if "dict_get content line_no = Some line \<and> dev_msg_search self line = Some group1"
    for line group1
  proof -
    from that have stored: "dict_get (ct_dev_messages ct) line_no = Some (strip group1)"
      by (simp add: entry)
    from strip_pinned [of group1] obtain pre mid post where
      "utf8_chars group1 = pre @ mid @ post" "strip group1 = concat mid"
      "\<forall>c \<in> set pre. isspace c" "\<forall>c \<in> set post. isspace c"
      "mid \<noteq> [] \<longrightarrow> \<not> isspace (hd mid) \<and> \<not> isspace (last mid)"
      "group1 = concat pre @ strip group1 @ concat post"
      by blast
    with stored have "dict_get (ct_dev_messages ct) line_no = Some (concat mid)
              \<and> utf8_chars group1 = pre @ mid @ post
              \<and> (\<forall>c \<in> set pre. isspace c) \<and> (\<forall>c \<in> set post. isspace c)
              \<and> (mid \<noteq> [] \<longrightarrow> \<not> isspace (hd mid) \<and> \<not> isspace (last mid))
              \<and> group1 = concat pre @ concat mid @ concat post"
      by simp
    then show ?thesis by blast
  qed
  with entry show ?thesis by blast
qed

text \<open>
  C10. Every request that \<^verbatim>\<open>compile\<close> sends has the key \<^verbatim>\<open>interfaces\<close> if and only
  if the import remapping is non-empty, and then the key holds the remapping; with an
  empty remapping the request has no such key.
\<close>

theorem interfaces_key_iff_remapping:
  assumes "r \<in> set (requests (compile self v settings'))"
  shows "(interfaces r \<noteq> None \<longleftrightarrow> import_remapping self \<noteq> [])
       \<and> (import_remapping self \<noteq> [] \<longrightarrow> interfaces r = Some (import_remapping self))
       \<and> (import_remapping self = [] \<longrightarrow> interfaces r = None)"
proof -
  from compile_requests [OF assms] obtain ss src_dict where
    "r = make_input_json self ss src_dict"
    by blast
  then show ?thesis
    by (simp add: make_input_json_def)
qed

text \<open>
  C3. When the groups before a settings group complete and the external compiler fails
  on the request of that group, \<^verbatim>\<open>compile\<close> ends with a \<^verbatim>\<open>VyperCompileError\<close> whose
  cause is the compiler's error; what it yielded is what the earlier groups yielded,
  nothing carries the key of the failing group, and the request of the failing group
  was sent once, as the last one.
\<close>

theorem compile_error_aborts_group:
  assumes keys: "distinct (dict_keys (pre @ (settings_key, settings_set) # post))"
    and pre: "raised (compile self v pre) = None"
    and sel: "outputSelection settings_set \<noteq> []"
    and src: "get_sources_dictionary (project_manager self)
                (dict_keys (outputSelection settings_set)) = Inr src_dict"
    and err: "vvm_compile_standard self (make_input_json self settings_set src_dict) v
                (path (project_manager self)) = Inl err"
  shows "raised (compile self v (pre @ (settings_key, settings_set) # post))
           = Some (VyperCompileError err err)
       \<and> (\<exists>e. raised (compile self v (pre @ (settings_key, settings_set) # post)) = Some e
              \<and> cause e = err \<and> base_err e = err)
       \<and> yielded (compile self v (pre @ (settings_key, settings_set) # post))
           = yielded (compile self v pre)
       \<and> (\<forall>(ct, k) \<in> set (yielded (compile self v (pre @ (settings_key, settings_set) # post))).
             k \<noteq> settings_key)
       \<and> requests (compile self v (pre @ (settings_key, settings_set) # post))
           = requests (compile self v pre) @ [make_input_json self settings_set src_dict]"
proof -
  let ?all = "compile self v (pre @ (settings_key, settings_set) # post)"
  have all: "?all =
      \<lparr> yielded = yielded (compile self v pre),
        requests = requests (compile self v pre) @ [make_input_json self settings_set src_dict],
        raised = Some (VyperCompileError err err) \<rparr>"
    by (simp add: compile_append [OF pre] compile_Cons_vyper_error [OF sel src err])
  have "k \<noteq> settings_key" if "(ct, k) \<in> set (yielded (compile self v pre))" for ct k
  proof -
    from compile_yielded_keys [OF that] have "k \<in> set (dict_keys pre)" .
    with keys show ?thesis by (auto simp: dict_keys_def)
  qed
  then show ?thesis
    unfolding all by auto
qed

lemma then_run_Nil [simp]: "then_run ([], None) r = r" "then_run r ([], None) = r"
  by (auto simp: then_run_def split: prod.splits option.splits)

lemma then_run_assoc: "then_run (then_run a b) c = then_run a (then_run b c)"
  by (auto simp: then_run_def split: prod.splits option.splits)

lemma compile_sources_Cons:
  "compile_sources self v result src_dict ((source_id, items) # contracts) =
     (case reconcile_source_id src_dict source_id of
        None \<Rightarrow> compile_sources self v result src_dict contracts
      | Some (sid, src_text) \<Rightarrow>
          then_run (compile_contracts self v result sid (content_validate self src_text) items)
            (compile_sources self v result src_dict contracts))"
  by (auto simp: then_run_def split: prod.splits option.splits)

lemma compile_sources_append:
  "compile_sources self v result src_dict (xs @ ys) =
     then_run (compile_sources self v result src_dict xs)
       (compile_sources self v result src_dict ys)"
proof (induction xs)
  case Nil
  show ?case by simp
next
  case (Cons entry xs)
  obtain source_id items where entry: "entry = (source_id, items)" by (cases entry)
  show ?case
    unfolding entry append_Cons compile_sources_Cons Cons.IH
    by (simp add: then_run_assoc split: option.splits)
qed

text \<open>
  C4. Wherever a result entry stands among the entries that the compiler returned: when
  its source id is a key of the request's sources, its contracts are processed under
  that id, after the entries before it and before the entries after it; otherwise, when
  the id behind one path separator is a key, they are processed under the prefixed id;
  otherwise the entry yields nothing and raises nothing, and the run is the run without
  the entry.
\<close>

theorem compile_sources_reconcile:
  "(dict_get src_dict source_id = Some src_text \<longrightarrow>
      compile_sources self v result src_dict (before @ (source_id, items) # after) =
        then_run (compile_sources self v result src_dict before)
          (then_run
             (compile_contracts self v result source_id (content_validate self src_text) items)
             (compile_sources self v result src_dict after)))
   \<and> (source_id \<notin> set (dict_keys src_dict) \<and>
        dict_get src_dict (os_path_sep @ source_id) = Some src_text \<longrightarrow>
      compile_sources self v result src_dict (before @ (source_id, items) # after) =
        then_run (compile_sources self v result src_dict before)
          (then_run
             (compile_contracts self v result (os_path_sep @ source_id)
                (content_validate self src_text) items)
             (compile_sources self v result src_dict after)))
   \<and> (source_id \<notin> set (dict_keys src_dict) \<and>
        os_path_sep @ source_id \<notin> set (dict_keys src_dict) \<longrightarrow>
      compile_sources self v result src_dict [(source_id, items)] = ([], None) \<and>
      compile_sources self v result src_dict (before @ (source_id, items) # after) =
        then_run (compile_sources self v result src_dict before)
          (compile_sources self v result src_dict after) \<and>
      compile_sources self v result src_dict (before @ (source_id, items) # after) =
        compile_sources self v result src_dict (before @ after))"
proof (intro conjI impI)
  assume "dict_get src_dict source_id = Some src_text"
  then have "reconcile_source_id src_dict source_id = Some (source_id, src_text)"
    by (simp add: reconcile_source_id_def)
  then show "compile_sources self v result src_dict (before @ (source_id, items) # after) =
        then_run (compile_sources self v result src_dict before)
          (then_run
             (compile_contracts self v result source_id (content_validate self src_text) items)
             (compile_sources self v result src_dict after))"
    unfolding compile_sources_append [of _ _ _ _ before] compile_sources_Cons by simp
next
  assume "source_id \<notin> set (dict_keys src_dict) \<and>
        dict_get src_dict (os_path_sep @ source_id) = Some src_text"
  then have "reconcile_source_id src_dict source_id = Some (os_path_sep @ source_id, src_text)"
    by (simp add: reconcile_source_id_def dict_get_None_iff [symmetric])
  then show "compile_sources self v result src_dict (before @ (source_id, items) # after) =
        then_run (compile_sources self v result src_dict before)
          (then_run
             (compile_contracts self v result (os_path_sep @ source_id)
                (content_validate self src_text) items)
             (compile_sources self v result src_dict after))"
    unfolding compile_sources_append [of _ _ _ _ before] compile_sources_Cons by simp
next
  assume none: "source_id \<notin> set (dict_keys src_dict) \<and>
        os_path_sep @ source_id \<notin> set (dict_keys src_dict)"
  then have skip: "reconcile_source_id src_dict source_id = None"
    by (simp add: reconcile_source_id_def dict_get_None_iff [symmetric])
  then show "compile_sources self v result src_dict [(source_id, items)] = ([], None)"
    by simp
  from skip show "compile_sources self v result src_dict (before @ (source_id, items) # after) =
        then_run (compile_sources self v result src_dict before)
          (compile_sources self v result src_dict after)"
    unfolding compile_sources_append [of _ _ _ _ before] compile_sources_Cons by simp
  with skip show "compile_sources self v result src_dict (before @ (source_id, items) # after) =
        compile_sources self v result src_dict (before @ after)"
    by (simp add: compile_sources_append)
qed

section \<open>The small project, compiled\<close>

lemma example_strip: "strip example_dev_text = ''dev: foo''"
  by (simp add: strip_def strip_chars_def isspace_def whitespace_def example_dev_text_def
        ascii_byte_def continuation_def)

lemma example_dev_msg_search:
  "dev_msg_search example_self example_token_text = Some example_dev_text"
  "dev_msg_search example_self ''x: uint256'' = None"
  by (simp_all add: example_self_def example_token_text_def)

lemma example_dev_messages:
  "find_dev_messages (dev_msg_search example_self)
     [(1, ''x: uint256''), (2, example_token_text)] [] = [(2, ''dev: foo'')]"
  by (simp add: example_dev_msg_search example_strip)

lemma example_token_built:
  "build_contract_type example_self ''0.3.7'' example_result ''token.vy''
     [(1, ''x: uint256''), (2, example_token_text)] ''token'' example_output =
   Inr example_contract_type"
  unfolding build_contract_type_def example_dev_messages
  by (simp add: example_self_def example_result_def example_output_def
        example_project_def example_contract_type_def dict_get_def parse_ast_def
        decompress_src_map_def parse_path_def path_root_def is_absolute_def Let_def)

lemma example_prefixed_built:
  "build_contract_type example_self ''0.3.7'' example_result ''/abs/token.vy''
     [(1, ''x: uint256''), (2, example_token_text)] ''token'' example_output =
   Inr example_prefixed_contract_type"
  unfolding build_contract_type_def example_dev_messages
  by (simp add: example_self_def example_result_def example_output_def
        example_project_def example_contract_type_def example_prefixed_contract_type_def
        dict_get_def parse_ast_def decompress_src_map_def parse_path_def path_root_def
        is_absolute_def path_str_def Let_def)

lemma example_sources:
  "get_sources_dictionary example_project [''token.vy''] =
     Inr [(''token.vy'', example_token_text)]"
  "get_sources_dictionary example_project [''bad.vy''] = Inr [(''bad.vy'', ''y: int257'')]"
  by (simp_all add: get_sources_dictionary_def dict_of_def example_project_def example_files_def
        parse_path_def path_root_def joinpath_def is_absolute_def parent_def)

lemma example_compile_sources:
  "compile_sources example_self ''0.3.7'' example_result
     [(''token.vy'', example_token_text)] (result_contracts example_result) =
   ([example_contract_type], None)"
proof -
  have "reconcile_source_id [(''token.vy'', example_token_text)] ''token.vy'' =
          Some (''token.vy'', example_token_text)"
    and "reconcile_source_id [(''token.vy'', example_token_text)] ''ghost.vy'' = None"
    by (simp_all add: reconcile_source_id_def dict_get_def os_path_sep_def)
  moreover have "content_validate example_self example_token_text =
      [(1, ''x: uint256''), (2, example_token_text)]"
    by (simp add: example_self_def)
  ultimately show ?thesis
    by (simp add: example_result_def example_token_built [unfolded example_result_def])
qed

lemma example_compile_token:
  "compile example_self ''0.3.7'' [(k, example_settings_set ''token.vy'')] =
     \<lparr> yielded = [(example_contract_type, k)],
       requests = [make_input_json example_self (example_settings_set ''token.vy'')
                     [(''token.vy'', example_token_text)]],
       raised = None \<rparr>"
proof -
  have sel: "outputSelection (example_settings_set ''token.vy'') \<noteq> []"
    by (simp add: example_settings_set_def)
  have src: "get_sources_dictionary (project_manager example_self)
                (dict_keys (outputSelection (example_settings_set ''token.vy''))) =
             Inr [(''token.vy'', example_token_text)]"
    using example_sources(1) by (simp add: example_self_def example_settings_set_def dict_keys_def)
  have res: "vvm_compile_standard example_self
               (make_input_json example_self (example_settings_set ''token.vy'')
                  [(''token.vy'', example_token_text)]) ''0.3.7''
               (path (project_manager example_self)) = Inr example_result"
    by (simp add: example_self_def make_input_json_def dict_get_def)
  show ?thesis
    using compile_Cons_result [OF sel src res example_compile_sources, of k "[]"]
    by simp
qed

lemma example_vyper_error:
  "vvm_compile_standard example_self
     (make_input_json example_self (example_settings_set ''bad.vy'') [(''bad.vy'', ''y: int257'')])
     ''0.3.7'' (path (project_manager example_self)) = Inl ''SyntaxException''"
  by (simp add: example_self_def make_input_json_def dict_get_def)

theorem src_map_drops_first_entry_witness:
  "build_contract_type example_self ''0.3.7'' example_result ''token.vy''
     [(1, ''x: uint256''), (2, example_token_text)] ''token'' example_output =
     Inr example_contract_type
   \<and> dict_get (deployedBytecode (evm example_output)) ''sourceMap'' =
       Some ''-1:-1:0:-;1:2:0;3:4:0:o''
   \<and> source_map_parse example_self ''-1:-1:0:-;1:2:0;3:4:0:o'' = example_items
   \<and> ct_pcmap example_contract_type = Some (drop 1 example_items)
   \<and> length (decompress_src_map example_self ''-1:-1:0:-;1:2:0;3:4:0:o'') = 2
   \<and> decompress_src_map example_self ''-1:-1:0:-;1:2:0;3:4:0:o'' ! 0 = example_items ! 1"
proof -
  have sm: "dict_get (deployedBytecode (evm example_output)) ''sourceMap'' =
       Some ''-1:-1:0:-;1:2:0;3:4:0:o''"
    by (simp add: example_output_def dict_get_def)
  have parsed: "source_map_parse example_self ''-1:-1:0:-;1:2:0;3:4:0:o'' = example_items"
    by (simp add: example_self_def)
  have len: "length example_items = 3"
    by (simp add: example_items_def)
  note drops = src_map_drops_first_entry [OF example_token_built sm]
  have pc: "ct_pcmap example_contract_type = Some (drop 1 example_items)"
    by (simp add: example_contract_type_def)
  have l: "length (decompress_src_map example_self ''-1:-1:0:-;1:2:0;3:4:0:o'') = 2"
    using drops [THEN conjunct2, THEN conjunct2, THEN conjunct2, THEN conjunct1]
    unfolding parsed len by simp
  have "decompress_src_map example_self ''-1:-1:0:-;1:2:0;3:4:0:o'' ! 0 =
          source_map_parse example_self ''-1:-1:0:-;1:2:0;3:4:0:o'' ! Suc 0"
    using drops [THEN conjunct2, THEN conjunct2, THEN conjunct2, THEN conjunct2] l
    by simp
  then have n: "decompress_src_map example_self ''-1:-1:0:-;1:2:0;3:4:0:o'' ! 0 = example_items ! 1"
    unfolding parsed by simp
  show ?thesis
    using example_token_built sm parsed pc l n by blast
qed

theorem dev_messages_exact_witness:
  "distinct (dict_keys [(1::int, ''x: uint256''), (2, example_token_text)])
   \<and> dev_msg_search example_self example_token_text = Some example_dev_text
   \<and> example_dev_text = ''dev: foo'' @ [CHR 0xC2, CHR 0xA0, CHR 0x20]
   \<and> isspace [CHR 0xC2, CHR 0xA0]
   \<and> dict_get (ct_dev_messages example_contract_type) 2 = Some ''dev: foo''
   \<and> dev_msg_search example_self ''x: uint256'' = None
   \<and> dict_get (ct_dev_messages example_contract_type) 1 = None"
proof -
  have d: "distinct (dict_keys [(1::int, ''x: uint256''), (2, example_token_text)])"
    by (simp add: dict_keys_def)
  have nbsp: "isspace [CHR 0xC2, CHR 0xA0]"
    by (simp add: isspace_def whitespace_def)
  from dev_messages_exact [OF example_token_built d, of 2, THEN conjunct1]
  have two: "dict_get (ct_dev_messages example_contract_type) 2 = Some ''dev: foo''"
    by (simp add: dict_get_def example_dev_msg_search example_strip)
  from dev_messages_exact [OF example_token_built d, of 1, THEN conjunct1]
  have one: "dict_get (ct_dev_messages example_contract_type) 1 = None"
    by (simp add: dict_get_def example_dev_msg_search)
  show ?thesis
    using d nbsp two one example_dev_msg_search by (simp add: example_dev_text_def)
qed

lemma example_remapping:
  "import_remapping example_self = [(''dep/Dependency.json'', [1, 2])]"
  "import_remapping example_newer_self = []"
  by (simp_all add: example_self_def example_newer_self_def)

theorem interfaces_key_iff_remapping_witness:
  "make_input_json example_self (example_settings_set ''token.vy'')
       [(''token.vy'', example_token_text)]
     \<in> set (requests (compile example_self ''0.3.7''
                 [(''true%paris'', example_settings_set ''token.vy'')]))
   \<and> import_remapping example_self \<noteq> []
   \<and> interfaces (make_input_json example_self (example_settings_set ''token.vy'')
       [(''token.vy'', example_token_text)]) = Some [(''dep/Dependency.json'', [1, 2])]
   \<and> make_input_json example_newer_self (example_settings_set ''token.vy'')
       [(''token.vy'', example_token_text)]
     \<in> set (requests (compile example_newer_self ''0.4.0''
                 [(''true%paris'', example_settings_set ''token.vy'')]))
   \<and> import_remapping example_newer_self = []
   \<and> interfaces (make_input_json example_newer_self (example_settings_set ''token.vy'')
       [(''token.vy'', example_token_text)]) = None"
proof -
  have sel: "outputSelection (example_settings_set ''token.vy'') \<noteq> []"
    by (simp add: example_settings_set_def)
  have src: "get_sources_dictionary (project_manager example_self)
                (dict_keys (outputSelection (example_settings_set ''token.vy''))) =
             Inr [(''token.vy'', example_token_text)]"
    and src': "get_sources_dictionary (project_manager example_newer_self)
                (dict_keys (outputSelection (example_settings_set ''token.vy''))) =
             Inr [(''token.vy'', example_token_text)]"
    using example_sources(1)
    by (simp_all add: example_self_def example_newer_self_def example_settings_set_def
          dict_keys_def)
  note r = compile_first_request [OF sel src, of "''0.3.7''" "''true%paris''" "[]"]
  note r' = compile_first_request [OF sel src', of "''0.4.0''" "''true%paris''" "[]"]
  from interfaces_key_iff_remapping [OF r] interfaces_key_iff_remapping [OF r']
  show ?thesis
    using r r' by (simp add: example_remapping)
qed

theorem compile_error_aborts_group_witness:
  "raised (compile example_self ''0.3.7''
      [(''true%paris'', example_settings_set ''token.vy''),
       (''gas%paris'', example_settings_set ''bad.vy''),
       (''codesize%paris'', example_settings_set ''token.vy'')])
     = Some (VyperCompileError ''SyntaxException'' ''SyntaxException'')
   \<and> yielded (compile example_self ''0.3.7''
      [(''true%paris'', example_settings_set ''token.vy''),
       (''gas%paris'', example_settings_set ''bad.vy''),
       (''codesize%paris'', example_settings_set ''token.vy'')])
     = [(example_contract_type, ''true%paris'')]
   \<and> requests (compile example_self ''0.3.7''
      [(''true%paris'', example_settings_set ''token.vy''),
       (''gas%paris'', example_settings_set ''bad.vy''),
       (''codesize%paris'', example_settings_set ''token.vy'')])
     = [make_input_json example_self (example_settings_set ''token.vy'')
          [(''token.vy'', example_token_text)],
        make_input_json example_self (example_settings_set ''bad.vy'') [(''bad.vy'', ''y: int257'')]]"
proof -
  have keys: "distinct (dict_keys ([(''true%paris'', example_settings_set ''token.vy'')] @
       (''gas%paris'', example_settings_set ''bad.vy'') #
       [(''codesize%paris'', example_settings_set ''token.vy'')]))"
    by (simp add: dict_keys_def)
  have pre: "raised (compile example_self ''0.3.7''
       [(''true%paris'', example_settings_set ''token.vy'')]) = None"
    by (simp add: example_compile_token)
  have sel: "outputSelection (example_settings_set ''bad.vy'') \<noteq> []"
    by (simp add: example_settings_set_def)
  have src: "get_sources_dictionary (project_manager example_self)
                (dict_keys (outputSelection (example_settings_set ''bad.vy''))) =
             Inr [(''bad.vy'', ''y: int257'')]"
    using example_sources(2) by (simp add: example_self_def example_settings_set_def dict_keys_def)
  from compile_error_aborts_group [OF keys pre sel src example_vyper_error]
  show ?thesis
    by (simp add: example_compile_token)
qed

declare compile_sources.simps(2) [simp del] compile_contracts.simps(2) [simp del]

theorem compile_sources_reconcile_witness:
  "dict_get [(''token.vy'', example_token_text)] ''token.vy'' = Some example_token_text
   \<and> ''ghost.vy'' \<notin> set (dict_keys [(''token.vy'', example_token_text)])
   \<and> os_path_sep @ ''ghost.vy'' \<notin> set (dict_keys [(''token.vy'', example_token_text)])
   \<and> compile_sources example_self ''0.3.7'' example_result
        [(''token.vy'', example_token_text)]
        [(''token.vy'', [(''token'', example_output)]), (''ghost.vy'', [(''ghost'', example_output)]),
         (''token.vy'', [(''token'', example_output)])]
      = ([example_contract_type, example_contract_type], None)
   \<and> ''abs/token.vy'' \<notin> set (dict_keys [(''/abs/token.vy'', example_token_text)])
   \<and> dict_get [(''/abs/token.vy'', example_token_text)] (os_path_sep @ ''abs/token.vy'')
      = Some example_token_text
   \<and> compile_sources example_self ''0.3.7'' example_result
        [(''/abs/token.vy'', example_token_text)] [(''abs/token.vy'', [(''token'', example_output)])]
      = ([example_prefixed_contract_type], None)"
proof -
  let ?src = "[(''token.vy'', example_token_text)]"
  let ?token = "(''token.vy'', [(''token'', example_output)])"
  have exact: "dict_get ?src ''token.vy'' = Some example_token_text"
    by (simp add: dict_get_def)
  have none: "''ghost.vy'' \<notin> set (dict_keys ?src)
     \<and> os_path_sep @ ''ghost.vy'' \<notin> set (dict_keys ?src)"
    by (simp add: dict_keys_def os_path_sep_def)
  have prefixed: "''abs/token.vy'' \<notin> set (dict_keys [(''/abs/token.vy'', example_token_text)])
     \<and> dict_get [(''/abs/token.vy'', example_token_text)] (os_path_sep @ ''abs/token.vy'')
      = Some example_token_text"
    by (simp add: dict_keys_def dict_get_def os_path_sep_def)
  have cv: "content_validate example_self example_token_text =
      [(1, ''x: uint256''), (2, example_token_text)]"
    by (simp add: example_self_def)
  have cc: "compile_contracts example_self ''0.3.7'' example_result ''token.vy''
      [(1, ''x: uint256''), (2, example_token_text)] [(''token'', example_output)]
      = ([example_contract_type], None)"
    by (simp add: example_token_built compile_contracts.simps(2))
  have cc': "compile_contracts example_self ''0.3.7'' example_result (os_path_sep @ ''abs/token.vy'')
      [(1, ''x: uint256''), (2, example_token_text)] [(''token'', example_output)]
      = ([example_prefixed_contract_type], None)"
    by (simp add: os_path_sep_def example_prefixed_built compile_contracts.simps(2))
  note rec = compile_sources_reconcile [where self = example_self and v = "''0.3.7''"
      and result = example_result]
  have last: "compile_sources example_self ''0.3.7'' example_result ?src [?token]
      = ([example_contract_type], None)"
    using rec [of ?src "''token.vy''" example_token_text "[]" "[(''token'', example_output)]" "[]",
        THEN conjunct1] exact
    by (simp add: cv cc then_run_def)
  have skipped: "compile_sources example_self ''0.3.7'' example_result ?src
        [(''ghost.vy'', [(''ghost'', example_output)]), ?token]
      = ([example_contract_type], None)"
    using rec [of ?src "''ghost.vy''" example_token_text "[]" "[(''ghost'', example_output)]"
        "[?token]", THEN conjunct2, THEN conjunct2] none last
    by simp
  have first: "compile_sources example_self ''0.3.7'' example_result ?src
        [?token, (''ghost.vy'', [(''ghost'', example_output)]), ?token]
      = ([example_contract_type, example_contract_type], None)"
    using rec [of ?src "''token.vy''" example_token_text "[]" "[(''token'', example_output)]"
        "[(''ghost.vy'', [(''ghost'', example_output)]), ?token]", THEN conjunct1] exact
    by (simp add: cv cc skipped then_run_def)
  have pre: "compile_sources example_self ''0.3.7'' example_result
        [(''/abs/token.vy'', example_token_text)] [(''abs/token.vy'', [(''token'', example_output)])]
      = ([example_prefixed_contract_type], None)"
    using rec [of "[(''/abs/token.vy'', example_token_text)]" "''abs/token.vy''"
        example_token_text "[]" "[(''token'', example_output)]" "[]",
        THEN conjunct2, THEN conjunct1] prefixed
    by (simp add: cv cc' then_run_def)
  show ?thesis
    using exact none prefixed first pre by blast
qed

section \<open>Properties of the settings resolver\<close>

lemma set_set_add: "set (set_add xs x) = insert x (set xs)"
  by (auto simp: set_add_def)

lemma dict_get_add_source:
  "dict_get (add_source key sid out) k =
     (if k = key
      then Some (set_add (case dict_get out key of None \<Rightarrow> [] | Some files \<Rightarrow> files) sid)
      else dict_get out k)"
  by (induction key sid out rule: add_source.induct) (auto simp: dict_get_def set_add_def)

lemma in_group_add_source:
  "in_group (add_source key sid out) k s \<longleftrightarrow> in_group out k s \<or> (k = key \<and> s = sid)"
  by (auto simp: in_group_def dict_get_add_source set_set_add split: option.splits)

lemma dict_keys_add_source:
  "set (dict_keys (add_source key sid out)) = insert key (set (dict_keys out))"
  by (induction key sid out rule: add_source.induct) (simp_all add: dict_keys_def insert_commute)

lemma distinct_add_source:
  "distinct (dict_keys out) \<Longrightarrow> distinct (dict_keys (add_source key sid out))"
proof (induction key sid out rule: add_source.induct)
  case (1 key sid)
  then show ?case by (simp add: dict_keys_def)
next
  case (2 key sid k files out)
  show ?case
  proof (cases "k = key")
    case True
    with 2 show ?thesis by (simp add: dict_keys_def)
  next
    case False
    with 2 have d: "distinct (dict_keys (add_source key sid out))" and "k \<notin> set (dict_keys out)"
      by (simp_all add: dict_keys_def)
    with False have "k \<notin> set (dict_keys (add_source key sid out))"
      by (simp add: dict_keys_add_source)
    with d False show ?thesis
      by (simp add: dict_keys_def)
  qed
qed

lemma in_group_group_sources:
  "in_group (group_sources self v source_paths out) k s \<longleftrightarrow>
     in_group out k s \<or>
     (\<exists>p \<in> set source_paths. s = source_id_of self p \<and> k = settings_key_of self v s)"
  by (induction source_paths arbitrary: out) (auto simp: Let_def in_group_add_source)

lemma distinct_group_sources:
  "distinct (dict_keys out) \<Longrightarrow> distinct (dict_keys (group_sources self v source_paths out))"
  by (induction source_paths arbitrary: out) (simp_all add: Let_def distinct_add_source)

lemma in_group_Nil: "\<not> in_group [] k s"
  by (simp add: in_group_def dict_get_def)

lemma version_settings_keys:
  "version_settings self output_selection = Inr vs \<Longrightarrow> dict_keys vs = dict_keys output_selection"
proof (induction output_selection arbitrary: vs)
  case Nil
  then show ?case by (auto simp: dict_keys_def)
next
  case (Cons g rest)
  obtain k sel where g: "g = (k, sel)" by (cases g)
  from Cons.prems obtain opt ev vs' where
    "split_key k = Some (opt, ev)" "version_settings self rest = Inr vs'"
    "vs = (k, settings_payload self opt ev sel) # vs'"
    by (auto simp: g split: option.splits sum.splits)
  with Cons.IH [of vs'] show ?case
    by (simp add: g dict_keys_def)
qed

lemma version_settings_get:
  "version_settings self output_selection = Inr vs \<Longrightarrow> dict_get vs k = Some payload \<Longrightarrow>
   \<exists>selection optimization evm_version.
      dict_get output_selection k = Some selection \<and>
      split_key k = Some (optimization, evm_version) \<and>
      payload = settings_payload self optimization evm_version selection"
proof (induction output_selection arbitrary: vs)
  case Nil
  then show ?case by (simp add: dict_get_def)
next
  case (Cons g rest)
  obtain k' sel where g: "g = (k', sel)" by (cases g)
  from Cons.prems(1) obtain opt ev vs' where parts:
    "split_key k' = Some (opt, ev)" "version_settings self rest = Inr vs'"
    "vs = (k', settings_payload self opt ev sel) # vs'"
    by (auto simp: g split: option.splits sum.splits)
  show ?case
  proof (cases "k = k'")
    case True
    with Cons.prems(2) parts show ?thesis
      by (simp add: g dict_get_def)
  next
    case False
    with Cons.prems(2) parts have "dict_get vs' k = Some payload"
      by (simp add: dict_get_def)
    from Cons.IH [OF parts(2) this] False show ?thesis
      by (simp add: g dict_get_def)
  qed
qed

lemma split_on_first:
  "c \<notin> set a \<Longrightarrow> split_on c (a @ c # b) = a # split_on c b"
  by (induction a) auto

lemma split_on_not_Nil: "split_on c s \<noteq> []"
  by (induction s) (auto split: list.splits)

lemma utf8_chars_ascii_Cons: "ascii_byte b \<Longrightarrow> utf8_chars (b # bs) = [b] # utf8_chars bs"
  by (simp split: list.splits)

lemma final_sigma_barrier:
  assumes "\<not> case_ignorable db x" and "\<not> cased db x"
  shows "final_sigma db (bf @ x # rest) after = final_sigma db bf after"
proof (cases "dropWhile (case_ignorable db) bf")
  case Nil
  then have "\<forall>y \<in> set bf. case_ignorable db y"
    by (simp only: dropWhile_eq_Nil_conv)
  then have app: "dropWhile (case_ignorable db) (bf @ x # rest) = x # rest"
    using assms(1) by simp
  show ?thesis
    unfolding final_sigma_def app Nil using assms(2) by simp
next
  case (Cons y ys)
  have "\<not> (\<forall>z \<in> set bf. case_ignorable db z)"
    using Cons by (simp only: dropWhile_eq_Nil_conv [symmetric]) simp
  then obtain z where "z \<in> set bf" "\<not> case_ignorable db z"
    by blast
  then have app: "dropWhile (case_ignorable db) (bf @ x # rest) =
      dropWhile (case_ignorable db) bf @ x # rest"
    by (rule dropWhile_append1)
  show ?thesis
    unfolding final_sigma_def app Cons by simp
qed

lemma lower_chars_barrier:
  assumes "\<not> case_ignorable db x" and "\<not> cased db x"
  shows "lower_chars db (bf @ x # rest) cs = lower_chars db bf cs"
proof (induction cs arbitrary: bf)
  case Nil
  show ?case by simp
next
  case (Cons c cs)
  have "lower_chars db (c # bf @ x # rest) cs = lower_chars db (c # bf) cs"
    using Cons.IH [of "c # bf"] by simp
  then show ?case
    by (simp add: final_sigma_barrier [OF assms])
qed

lemma percent_barrier:
  "\<not> case_ignorable db ''%''" "\<not> cased db ''%''"
  by (simp_all add: case_ignorable_def cased_def ascii_char_def ascii_byte_def)

lemma lower_True_prefix: "lower db (''True%'' @ r) = ''true%'' @ lower db r"
proof -
  have chars: "utf8_chars (''True%'' @ r) =
      [''T'', ''r'', ''u'', ''e'', ''%''] @ utf8_chars r"
    by (simp add: utf8_chars_ascii_Cons ascii_byte_def del: utf8_chars.simps)
  have "lower_chars db [] ([''T'', ''r'', ''u'', ''e'', ''%''] @ utf8_chars r) =
      ''true%'' @ lower_chars db ([] @ ''%'' # [''e'', ''u'', ''r'', ''T'']) (utf8_chars r)"
    by (simp add: capital_sigma_def lower_char_def lower_ascii_def ascii_char_def ascii_byte_def)
  also have "\<dots> = ''true%'' @ lower_chars db [] (utf8_chars r)"
    by (simp only: lower_chars_barrier [OF percent_barrier])
  finally show ?thesis
    by (simp only: lower_def chars)
qed

lemma split_key_true:
  "split_key (''true%'' @ rest) = Some (optimization, evm_version) \<Longrightarrow> optimization = ''true''"
  using split_on_first [of "CHR ''%''" "''true''" rest] split_on_not_Nil [of "CHR ''%''" rest]
  by (auto simp: split_key_def split: list.splits)

lemma map_of_keyed:
  "map_of (map (\<lambda>k. (k, f k)) ks) k = (if k \<in> set ks then Some (f k) else None)"
  by (induction ks) auto

lemma dict_get_dict_of_keyed:
  "dict_get (dict_of (map (\<lambda>k. (k, f k)) ks)) k = (if k \<in> set ks then Some (f k) else None)"
  using map_of_keyed [of f "rev ks" k] by (simp add: dict_get_dict_of rev_map)

lemma split_on_hd_prefix: "prefix (hd (split_on c s)) s"
  by (induction s) (auto split: list.splits)

lemma split_on_sublist: "w \<in> set (split_on c s) \<Longrightarrow> sublist w s"
proof (induction s arbitrary: w)
  case Nil
  then show ?case by simp
next
  case (Cons x xs)
  show ?case
  proof (cases "x = c")
    case True
    with Cons.prems have "w = [] \<or> w \<in> set (split_on c xs)" by auto
    then show ?thesis
      using Cons.IH by (auto simp: sublist_Cons_right)
  next
    case False
    obtain w0 ws where sp: "split_on c xs = w0 # ws"
      using split_on_not_Nil [of c xs] by (cases "split_on c xs") auto
    with False Cons.prems have "w = x # w0 \<or> w \<in> set ws" by auto
    then show ?thesis
    proof
      assume "w = x # w0"
      moreover have "prefix w0 xs"
        using split_on_hd_prefix [of c xs] by (simp add: sp)
      ultimately show ?thesis
        by (simp add: sublist_Cons_right)
    next
      assume "w \<in> set ws"
      then have "w \<in> set (split_on c xs)" by (simp add: sp)
      from Cons.IH [OF this] show ?thesis
        by (simp add: sublist_Cons_right)
    qed
  qed
qed

lemma inside_interfaces_directory_contains:
  "spec_inside_interfaces_directory s \<Longrightarrow> str_contains ''interfaces'' s"
proof -
  assume "spec_inside_interfaces_directory s"
  then have "''interfaces'' \<in> set (parts (parse_path s))"
    unfolding spec_inside_interfaces_directory_def by (rule in_set_butlastD)
  then have "''interfaces'' \<in> set (split_on CHR ''/'' s)"
    by (simp add: parse_path_def)
  then show ?thesis
    unfolding str_contains_def by (rule split_on_sublist)
qed

lemma dict_get_selection_dictionary:
  "dict_get (get_selection_dictionary pm selection) s =
     (if s \<in> set selection \<and> is_file pm (joinpath (path pm) (parse_path s))
         \<and> \<not> str_contains ''interfaces'' s
      then Some (get_output_format pm) else None)"
  unfolding get_selection_dictionary_def dict_get_dict_of_keyed by simp

lemma selection_keys_outside_interfaces:
  assumes "s \<in> set (dict_keys (get_selection_dictionary pm selection))"
  shows "\<not> spec_inside_interfaces_directory s"
proof -
  from assms have "dict_get (get_selection_dictionary pm selection) s \<noteq> None"
    by (simp add: dict_get_None_iff)
  then have "\<not> str_contains ''interfaces'' s"
    unfolding dict_get_selection_dictionary by (simp split: if_splits)
  then show ?thesis
    using inside_interfaces_directory_contains by blast
qed

lemma dict_of_keyed_set:
  "set (dict_of (map (\<lambda>k. (k, f k)) ks)) = (\<lambda>k. (k, f k)) ` set ks"
proof -
  let ?d = "dict_of (map (\<lambda>k. (k, f k)) ks)"
  have "(k, v) \<in> set ?d \<longleftrightarrow> k \<in> set ks \<and> v = f k" for k v
  proof -
    have "(k, v) \<in> set ?d \<longleftrightarrow> map_of ?d k = Some v"
      using distinct_dict_of [of "map (\<lambda>k. (k, f k)) ks"]
      by (simp add: dict_keys_def)
    also have "\<dots> \<longleftrightarrow> k \<in> set ks \<and> v = f k"
      using dict_get_dict_of_keyed [of f ks k] by (auto simp: dict_get_def)
    finally show ?thesis .
  qed
  then show ?thesis by auto
qed

lemma version_settings_dict_get:
  "version_settings self output_selection = Inr vs \<Longrightarrow>
   dict_get vs k =
     (case dict_get output_selection k of
        None \<Rightarrow> None
      | Some selection \<Rightarrow>
          (case split_key k of
             None \<Rightarrow> None
           | Some (optimization, evm_version) \<Rightarrow>
               Some (settings_payload self optimization evm_version selection)))"
proof (induction output_selection arbitrary: vs)
  case Nil
  then show ?case by (auto simp: dict_get_def)
next
  case (Cons g rest)
  obtain k' sel where g: "g = (k', sel)" by (cases g)
  from Cons.prems obtain opt ev vs' where parts:
    "split_key k' = Some (opt, ev)" "version_settings self rest = Inr vs'"
    "vs = (k', settings_payload self opt ev sel) # vs'"
    by (auto simp: g split: option.splits sum.splits)
  show ?case
    using Cons.IH [OF parts(2)] parts(1) by (simp add: g parts(3) dict_get_def)
qed

lemma version_settings_total:
  "(\<exists>vs. version_settings self output_selection = Inr vs) \<longleftrightarrow>
   (\<forall>k \<in> set (dict_keys output_selection). split_key k \<noteq> None)"
proof (induction output_selection)
  case Nil
  then show ?case by (simp add: dict_keys_def)
next
  case (Cons g rest)
  obtain k' sel where g: "g = (k', sel)" by (cases g)
  show ?case
  proof (cases "version_settings self rest")
    case (Inl e)
    with Cons.IH have "\<not> (\<forall>k \<in> set (dict_keys rest). split_key k \<noteq> None)"
      by simp
    then show ?thesis
      by (auto simp: g Inl dict_keys_def split: option.splits)
  next
    case (Inr vs')
    with Cons.IH have "\<forall>k \<in> set (dict_keys rest). split_key k \<noteq> None"
      by simp
    then show ?thesis
      by (auto simp: g Inr dict_keys_def split: option.splits)
  qed
qed

lemma version_settings_payloads:
  "version_settings self output_selection = Inr vs \<Longrightarrow> (k, payload) \<in> set vs \<Longrightarrow>
   \<exists>optimization evm_version selection.
      payload = settings_payload self optimization evm_version selection"
proof (induction output_selection arbitrary: vs)
  case Nil
  then show ?case by auto
next
  case (Cons g rest)
  obtain k' sel where g: "g = (k', sel)" by (cases g)
  from Cons.prems(1) obtain opt ev vs' where parts:
    "split_key k' = Some (opt, ev)" "version_settings self rest = Inr vs'"
    "vs = (k', settings_payload self opt ev sel) # vs'"
    by (auto simp: g split: option.splits sum.splits)
  from Cons.prems(2) parts(3) have
    "payload = settings_payload self opt ev sel \<or> (k, payload) \<in> set vs'"
    by auto
  then show ?case
    using Cons.IH [OF parts(2)] by blast
qed

lemma set_dict_keys_group_sources:
  "set (dict_keys (group_sources self v source_paths out)) =
     set (dict_keys out) \<union>
     (\<lambda>q. settings_key_of self v (source_id_of self q)) ` set source_paths"
  by (induction source_paths arbitrary: out) (auto simp: Let_def dict_keys_add_source)

lemma dict_keys_group_sources:
  "k \<in> set (dict_keys (group_sources self v source_paths [])) \<longleftrightarrow>
     (\<exists>q \<in> set source_paths. k = settings_key_of self v (source_id_of self q))"
  unfolding set_dict_keys_group_sources by (auto simp: dict_keys_def)

lemma outputSelection_settings_payload:
  "outputSelection (settings_payload self optimization evm_version selection) =
     get_selection_dictionary (local_project self) selection"
  by (simp add: settings_payload_def)

lemma selected_get_settings:
  assumes "get_settings self v (Sequence source_paths) = Inr vs"
  shows "selected vs k s \<longleftrightarrow>
     in_group (group_sources self v source_paths []) k s
     \<and> is_file (local_project self) (joinpath (path (local_project self)) (parse_path s))
     \<and> \<not> str_contains ''interfaces'' s"
proof -
  let ?G = "group_sources self v source_paths []"
  from assms have vs: "version_settings self ?G = Inr vs"
    by (simp add: get_settings_def)
  show ?thesis
  proof (cases "dict_get ?G k")
    case None
    then show ?thesis
      by (simp add: selected_def in_group_def version_settings_dict_get [OF vs])
  next
    case (Some sel)
    then have "k \<in> set (dict_keys ?G)"
      using dict_get_None_iff [of ?G k] by simp
    moreover have "\<forall>k \<in> set (dict_keys ?G). split_key k \<noteq> None"
      using version_settings_total [of self ?G] vs by blast
    ultimately obtain opt ev where sk: "split_key k = Some (opt, ev)"
      by fastforce
    have "s \<in> set (dict_keys (get_selection_dictionary (local_project self) sel)) \<longleftrightarrow>
        dict_get (get_selection_dictionary (local_project self) sel) s \<noteq> None"
      by (simp add: dict_get_None_iff)
    then show ?thesis
      by (simp add: selected_def in_group_def version_settings_dict_get [OF vs] Some sk
            outputSelection_settings_payload dict_get_selection_dictionary)
  qed
qed

lemma length_split_on: "length (split_on c s) = Suc (length (filter (\<lambda>x. x = c) s))"
proof (induction s)
  case Nil
  show ?case by simp
next
  case (Cons x xs)
  then show ?case
    by (cases "split_on c xs") simp_all
qed

lemma split_key_total:
  "split_key k \<noteq> None \<longleftrightarrow> length (filter (\<lambda>x. x = CHR ''%'') k) = 1"
proof -
  have "split_key k \<noteq> None \<longleftrightarrow> length (split_on CHR ''%'' k) = 2"
  proof (cases "split_on CHR ''%'' k")
    case Nil
    then show ?thesis by (simp add: split_key_def)
  next
    case (Cons a as)
    show ?thesis
    proof (cases as)
      case Nil
      then show ?thesis by (simp add: split_key_def Cons)
    next
      case (Cons b bs)
      then show ?thesis
        by (cases bs) (simp_all add: split_key_def \<open>split_on CHR ''%'' k = a # as\<close>)
    qed
  qed
  then show ?thesis
    by (simp add: length_split_on)
qed

lemma get_settings_total:
  "(\<exists>vs. get_settings self v (Sequence source_paths) = Inr vs) \<longleftrightarrow>
   (\<forall>q \<in> set source_paths.
      length (filter (\<lambda>x. x = CHR ''%'') (settings_key_of self v (source_id_of self q))) = 1)"
proof -
  let ?G = "group_sources self v source_paths []"
  have "(\<exists>vs. get_settings self v (Sequence source_paths) = Inr vs) \<longleftrightarrow>
      (\<forall>k \<in> set (dict_keys ?G). split_key k \<noteq> None)"
    unfolding get_settings_def loop_source_paths.simps by (rule version_settings_total)
  also have "\<dots> \<longleftrightarrow>
      (\<forall>q \<in> set source_paths. split_key (settings_key_of self v (source_id_of self q)) \<noteq> None)"
    unfolding set_dict_keys_group_sources by (simp add: dict_keys_def)
  also have "\<dots> \<longleftrightarrow> (\<forall>q \<in> set source_paths.
      length (filter (\<lambda>x. x = CHR ''%'') (settings_key_of self v (source_id_of self q))) = 1)"
    unfolding split_key_total ..
  finally show ?thesis .
qed

text \<open>
  C2. Of what \<^verbatim>\<open>get_settings\<close> returns for a sequence of source paths. In the returned
  settings, a source of the call whose file exists under the project path and whose
  identifier does not contain \<^verbatim>\<open>interfaces\<close> is selected in exactly one group, the one
  under its settings key; no source is selected in a group under another key; a source
  whose file does not exist, or that is inside an \<^verbatim>\<open>interfaces\<close> directory, is selected
  in no group; a source with the same resolved optimization and EVM version has the same
  key, and when its file exists and its identifier does not contain \<^verbatim>\<open>interfaces\<close> it
  is selected in the same group; the key is the lower-cased join of the two resolved
  values with a percent sign; the keys of the returned settings are distinct and are the
  keys of the sources of the call. The call returns exactly when the key of every source
  holds one percent sign; otherwise it raises \<^verbatim>\<open>ValueError\<close>. Called with an iterator
  it returns the empty dictionary.
\<close>

theorem each_source_in_one_returned_group:
  "(get_settings self v (Sequence source_paths) = Inr vs \<and> p \<in> set source_paths \<longrightarrow>
      (is_file (local_project self)
           (joinpath (path (local_project self)) (parse_path (source_id_of self p)))
         \<and> \<not> str_contains ''interfaces'' (source_id_of self p) \<longrightarrow>
         selected vs (settings_key_of self v (source_id_of self p)) (source_id_of self p)
         \<and> (\<exists>!k. selected vs k (source_id_of self p)))
    \<and> (\<forall>k. selected vs k (source_id_of self p) \<longrightarrow>
             k = settings_key_of self v (source_id_of self p))
    \<and> (\<not> is_file (local_project self)
             (joinpath (path (local_project self)) (parse_path (source_id_of self p)))
         \<or> spec_inside_interfaces_directory (source_id_of self p) \<longrightarrow>
         (\<forall>k. \<not> selected vs k (source_id_of self p)))
    \<and> (\<forall>q \<in> set source_paths.
           resolve_optimization self v (source_id_of self q) =
             resolve_optimization self v (source_id_of self p) \<and>
           resolve_evm_version self v (source_id_of self q) =
             resolve_evm_version self v (source_id_of self p) \<longrightarrow>
           settings_key_of self v (source_id_of self q) =
             settings_key_of self v (source_id_of self p)
           \<and> (is_file (local_project self)
                  (joinpath (path (local_project self)) (parse_path (source_id_of self q)))
                \<and> \<not> str_contains ''interfaces'' (source_id_of self q) \<longrightarrow>
                selected vs (settings_key_of self v (source_id_of self p))
                  (source_id_of self q)))
    \<and> settings_key_of self v (source_id_of self p) =
         lower (unicode_data self)
           (str_optimization (resolve_optimization self v (source_id_of self p)) @ ''%'' @
            str_optional (resolve_evm_version self v (source_id_of self p)))
    \<and> distinct (dict_keys vs)
    \<and> (\<forall>k. k \<in> set (dict_keys vs) \<longleftrightarrow>
             (\<exists>q \<in> set source_paths. k = settings_key_of self v (source_id_of self q))))
   \<and> ((\<exists>returned. get_settings self v (Sequence source_paths) = Inr returned) \<longleftrightarrow>
        (\<forall>q \<in> set source_paths.
           length (filter (\<lambda>x. x = CHR ''%'')
                     (settings_key_of self v (source_id_of self q))) = 1))
   \<and> ((\<forall>q \<in> set source_paths.
           length (filter (\<lambda>x. x = CHR ''%'')
                     (settings_key_of self v (source_id_of self q))) = 1)
        \<or> get_settings self v (Sequence source_paths) = Inl ValueError)
   \<and> get_settings self v (Iterator source_paths) = Inr []"
  (is "(?called \<longrightarrow> ?groups) \<and> ?total \<and> ?raises \<and> ?iterator")
proof -
  let ?G = "group_sources self v source_paths []"
  let ?pm = "local_project self"
  let ?sid = "source_id_of self"
  let ?key = "\<lambda>q. settings_key_of self v (source_id_of self q)"
  let ?kept = "\<lambda>s. is_file ?pm (joinpath (path ?pm) (parse_path s))
                    \<and> \<not> str_contains ''interfaces'' s"
  have member: "in_group ?G k s \<longleftrightarrow>
      (\<exists>q \<in> set source_paths. s = source_id_of self q \<and> k = settings_key_of self v s)" for k s
    by (simp add: in_group_group_sources in_group_Nil)
  have total: ?total
    by (rule get_settings_total)
  have raises: ?raises
  proof (cases "get_settings self v (Sequence source_paths)")
    case (Inl e)
    have only: "version_settings self output_selection = Inl e' \<Longrightarrow> e' = ValueError"
      for output_selection e'
    proof (induction output_selection)
      case Nil
      then show ?case by simp
    next
      case (Cons g rest)
      obtain k' sel where g: "g = (k', sel)" by (cases g)
      from Cons show ?case
        by (cases "split_key k'"; cases "version_settings self rest") (auto simp: g)
    qed
    from Inl have "e = ValueError"
      using only [of ?G e] by (simp add: get_settings_def)
    with Inl show ?thesis
      by simp
  next
    case (Inr returned)
    then have "\<exists>returned. get_settings self v (Sequence source_paths) = Inr returned"
      by blast
    then show ?thesis
      unfolding total by (rule disjI1)
  qed
  have iterator: ?iterator
    by (simp add: get_settings_def)
  have groups: ?groups if called: ?called
  proof -
    from called have vs: "get_settings self v (Sequence source_paths) = Inr vs"
      and p: "p \<in> set source_paths"
      by simp_all
    have sel: "selected vs k s \<longleftrightarrow> in_group ?G k s \<and> ?kept s" for k s
      using selected_get_settings [OF vs, of k s] by blast
    have own: "in_group ?G (?key p) (?sid p)"
      unfolding member using p by blast
    have only: "k = ?key p" if "selected vs k (?sid p)" for k
      using that unfolding sel member by blast
    have one: "selected vs (?key p) (?sid p) \<and> (\<exists>!k. selected vs k (?sid p))"
      if "?kept (?sid p)"
    proof -
      from that own have "selected vs (?key p) (?sid p)"
        unfolding sel by blast
      then show ?thesis
        using only by blast
    qed
    have none: "\<not> selected vs k (?sid p)"
      if "\<not> is_file ?pm (joinpath (path ?pm) (parse_path (?sid p)))
          \<or> spec_inside_interfaces_directory (?sid p)" for k
      using that inside_interfaces_directory_contains [of "?sid p"] unfolding sel by blast
    have same: "?key q = ?key p
        \<and> (?kept (?sid q) \<longrightarrow> selected vs (?key p) (?sid q))"
      if q: "q \<in> set source_paths"
        and eq: "resolve_optimization self v (?sid q) = resolve_optimization self v (?sid p)
          \<and> resolve_evm_version self v (?sid q) = resolve_evm_version self v (?sid p)" for q
    proof -
      from eq have keys: "?key q = ?key p"
        by (simp add: settings_key_of_def)
      have "in_group ?G (?key p) (?sid q)"
        unfolding member using q keys by (intro bexI [of _ q]) simp_all
      then show ?thesis
        using keys unfolding sel by blast
    qed
    from vs have vsG: "version_settings self ?G = Inr vs"
      by (simp add: get_settings_def)
    have dist: "distinct (dict_keys vs)"
      unfolding version_settings_keys [OF vsG]
      by (rule distinct_group_sources) (simp add: dict_keys_def)
    have keys: "k \<in> set (dict_keys vs) \<longleftrightarrow> (\<exists>q \<in> set source_paths. k = ?key q)" for k
      unfolding version_settings_keys [OF vsG] by (rule dict_keys_group_sources)
    have formula: "?key p = lower (unicode_data self)
        (str_optimization (resolve_optimization self v (?sid p)) @ ''%'' @
         str_optional (resolve_evm_version self v (?sid p)))"
      by (simp add: settings_key_of_def)
    show ?thesis
    proof (intro conjI)
      show "?kept (?sid p) \<longrightarrow>
          selected vs (?key p) (?sid p) \<and> (\<exists>!k. selected vs k (?sid p))"
        using one by (rule impI)
      show "\<forall>k. selected vs k (?sid p) \<longrightarrow> k = ?key p"
        using only by (intro allI impI)
      show "\<not> is_file ?pm (joinpath (path ?pm) (parse_path (?sid p)))
          \<or> spec_inside_interfaces_directory (?sid p) \<longrightarrow>
          (\<forall>k. \<not> selected vs k (?sid p))"
        using none by (intro allI impI)
      show "\<forall>q \<in> set source_paths.
          resolve_optimization self v (?sid q) = resolve_optimization self v (?sid p) \<and>
          resolve_evm_version self v (?sid q) = resolve_evm_version self v (?sid p) \<longrightarrow>
          ?key q = ?key p \<and> (?kept (?sid q) \<longrightarrow> selected vs (?key p) (?sid q))"
        using same by (intro ballI impI)
      show "?key p = lower (unicode_data self)
          (str_optimization (resolve_optimization self v (?sid p)) @ ''%'' @
           str_optional (resolve_evm_version self v (?sid p)))"
        by (rule formula)
      show "distinct (dict_keys vs)"
        by (rule dist)
      show "\<forall>k. k \<in> set (dict_keys vs) \<longleftrightarrow> (\<exists>q \<in> set source_paths. k = ?key q)"
        using keys by (intro allI)
    qed
  qed
  show ?thesis
  proof (intro conjI)
    show "?called \<longrightarrow> ?groups"
      using groups by (rule impI)
    show ?total by (rule total)
    show ?raises by (rule raises)
    show ?iterator by (rule iterator)
  qed
qed

text \<open>
  C9. A source whose entry in the optimization pragma map is absent, the empty string or
  \<^verbatim>\<open>False\<close> gets the default optimization of the version. When that default is
  \<^verbatim>\<open>True\<close>, the key of the source starts with \<^verbatim>\<open>true\<close>, the optimization split off
  the key is \<^verbatim>\<open>true\<close>, the source is in no other group, and the payload of its group
  has \<^verbatim>\<open>optimize\<close> set to \<^verbatim>\<open>True\<close>.
\<close>

theorem falsy_pragma_uses_default:
  assumes "optimizations_map self source_id = None
         \<or> optimizations_map self source_id = Some (OStr [])
         \<or> optimizations_map self source_id = Some (OBool False)"
  shows "resolve_optimization self v source_id = get_default_optimization self v
       \<and> (get_default_optimization self v = OBool True \<longrightarrow>
            settings_key_of self v source_id =
              ''true%'' @ lower (unicode_data self) (str_optional (resolve_evm_version self v source_id))
          \<and> (\<forall>optimization evm_version.
                split_key (settings_key_of self v source_id) = Some (optimization, evm_version)
                \<longrightarrow> optimization = ''true'')
          \<and> (\<forall>source_paths k. in_group (group_sources self v source_paths []) k source_id
                \<longrightarrow> k = settings_key_of self v source_id)
          \<and> (\<forall>source_paths vs k payload.
                get_settings self v (Sequence source_paths) = Inr vs \<and>
                in_group (group_sources self v source_paths []) k source_id \<and>
                dict_get vs k = Some payload
                \<longrightarrow> optimize payload = OBool True))"
proof -
  have dflt: "resolve_optimization self v source_id = get_default_optimization self v"
    using assms by (auto simp: resolve_optimization_def)
  have group: "k = settings_key_of self v source_id"
    if "in_group (group_sources self v source_paths []) k source_id" for source_paths k
    using that by (auto simp: in_group_group_sources in_group_Nil)
  {
    assume true: "get_default_optimization self v = OBool True"
    have key: "settings_key_of self v source_id =
        ''true%'' @ lower (unicode_data self) (str_optional (resolve_evm_version self v source_id))"
      using lower_True_prefix
        [of "unicode_data self" "str_optional (resolve_evm_version self v source_id)"]
      by (simp add: settings_key_of_def dflt true)
    have opt: "optimization = ''true''"
      if "split_key (settings_key_of self v source_id) = Some (optimization, evm_version)"
      for optimization evm_version
      using that unfolding key by (rule split_key_true)
    have "optimize payload = OBool True"
      if vs: "get_settings self v (Sequence source_paths) = Inr vs"
        and g: "in_group (group_sources self v source_paths []) k source_id"
        and pl: "dict_get vs k = Some payload" for source_paths vs k payload
    proof -
      from vs have "version_settings self (group_sources self v source_paths []) = Inr vs"
        by (simp add: get_settings_def)
      from version_settings_get [OF this pl] obtain selection optimization evm_version where
        "split_key k = Some (optimization, evm_version)"
        "payload = settings_payload self optimization evm_version selection"
        by blast
      moreover from group [OF g] have "k = settings_key_of self v source_id" .
      ultimately show ?thesis
        using opt by (auto simp: settings_payload_def)
    qed
    note key opt this
  }
  then show ?thesis
    using dflt group by blast
qed

lemma read_sources_get:
  "distinct (dict_keys ps) \<Longrightarrow> read_sources pm ps = Inr d \<Longrightarrow>
   dict_get d s = Some src_text \<longleftrightarrow>
     (\<exists>p. dict_get ps s = Some p
        \<and> parent p \<noteq> joinpath (path pm) (parse_path ''interfaces'')
        \<and> read_text pm p = Inr src_text)"
proof (induction ps arbitrary: d)
  case Nil
  then show ?case by (auto simp: dict_get_def)
next
  case (Cons e ps)
  obtain s' p' where e: "e = (s', p')" by (cases e)
  from Cons.prems(1) have dist: "distinct (dict_keys ps)" and fresh: "dict_get ps s' = None"
    by (simp_all add: e dict_keys_def dict_get_def map_of_eq_None_iff)
  show ?case
  proof (cases "parent p' \<noteq> joinpath (path pm) (parse_path ''interfaces'')")
    case False
    with Cons.prems(2) have "read_sources pm ps = Inr d" by (simp add: e)
    from Cons.IH [OF dist this] False fresh show ?thesis
      by (auto simp: e dict_get_def)
  next
    case True
    with Cons.prems(2) obtain t' d' where
      "read_text pm p' = Inr t'" "read_sources pm ps = Inr d'" "d = (s', t') # d'"
      by (auto simp: e split: sum.splits)
    with Cons.IH [OF dist this(2)] True show ?thesis
      by (auto simp: e dict_get_def)
  qed
qed

lemma read_sources_keys:
  "read_sources pm ps = Inr d \<Longrightarrow>
   dict_keys d =
     map fst (filter (\<lambda>(s, p). parent p \<noteq> joinpath (path pm) (parse_path ''interfaces'')) ps)"
proof (induction ps arbitrary: d)
  case Nil
  then show ?case by (auto simp: dict_keys_def)
next
  case (Cons e ps)
  obtain s' p' where e: "e = (s', p')" by (cases e)
  show ?case
  proof (cases "parent p' \<noteq> joinpath (path pm) (parse_path ''interfaces'')")
    case False
    with Cons.prems have "read_sources pm ps = Inr d" by (simp add: e)
    from Cons.IH [OF this] False show ?thesis
      by (simp add: e)
  next
    case True
    with Cons.prems obtain t' d' where
      "read_text pm p' = Inr t'" "read_sources pm ps = Inr d'" "d = (s', t') # d'"
      by (auto simp: e split: sum.splits)
    with Cons.IH [OF this(2)] True show ?thesis
      by (simp add: e dict_keys_def)
  qed
qed

lemma read_sources_total:
  "(\<exists>d. read_sources pm ps = Inr d) \<longleftrightarrow>
   (\<forall>(s, p) \<in> set ps. parent p \<noteq> joinpath (path pm) (parse_path ''interfaces'')
        \<longrightarrow> (\<exists>src_text. read_text pm p = Inr src_text))"
proof (induction ps)
  case Nil
  then show ?case by simp
next
  case (Cons e ps)
  obtain s' p' where e: "e = (s', p')" by (cases e)
  show ?case
  proof (cases "read_sources pm ps")
    case (Inl err)
    with Cons.IH have "\<not> (\<forall>(s, p) \<in> set ps.
        parent p \<noteq> joinpath (path pm) (parse_path ''interfaces'')
        \<longrightarrow> (\<exists>src_text. read_text pm p = Inr src_text))"
      by simp
    then show ?thesis
      by (auto simp: e Inl split: sum.splits)
  next
    case (Inr d')
    with Cons.IH have "\<forall>(s, p) \<in> set ps.
        parent p \<noteq> joinpath (path pm) (parse_path ''interfaces'')
        \<longrightarrow> (\<exists>src_text. read_text pm p = Inr src_text)"
      by simp
    then show ?thesis
      by (cases "read_text pm p'") (auto simp: e Inr)
  qed
qed

lemma dict_get_sources_dictionary:
  assumes "get_sources_dictionary pm source_ids = Inr d"
  shows "dict_get d s = Some src_text \<longleftrightarrow>
        s \<in> set source_ids
        \<and> parent (joinpath (path pm) (parse_path s)) \<noteq>
            joinpath (path pm) (parse_path ''interfaces'')
        \<and> read_text pm (joinpath (path pm) (parse_path s)) = Inr src_text"
proof -
  let ?ps = "dict_of (map (\<lambda>src_id. (src_id, joinpath (path pm) (parse_path src_id))) source_ids)"
  have dist: "distinct (dict_keys ?ps)" by (rule distinct_dict_of)
  from assms have rs: "read_sources pm ?ps = Inr d"
    by (simp add: get_sources_dictionary_def)
  show ?thesis
    unfolding read_sources_get [OF dist rs] dict_get_dict_of_keyed by auto
qed

lemma distinct_sources_dictionary:
  assumes "get_sources_dictionary pm source_ids = Inr d"
  shows "distinct (dict_keys d)"
proof -
  let ?ps = "dict_of (map (\<lambda>src_id. (src_id, joinpath (path pm) (parse_path src_id))) source_ids)"
  have dist: "distinct (map fst ?ps)"
    using distinct_dict_of [of "map (\<lambda>src_id. (src_id, joinpath (path pm) (parse_path src_id))) source_ids"]
    by (simp add: dict_keys_def)
  from assms have rs: "read_sources pm ?ps = Inr d"
    by (simp add: get_sources_dictionary_def)
  show ?thesis
    unfolding read_sources_keys [OF rs] using dist by (rule distinct_map_filter)
qed

lemma sources_dictionary_total:
  "(\<exists>d. get_sources_dictionary pm source_ids = Inr d) \<longleftrightarrow>
     (\<forall>s \<in> set source_ids.
        parent (joinpath (path pm) (parse_path s)) \<noteq>
          joinpath (path pm) (parse_path ''interfaces'')
        \<longrightarrow> (\<exists>src_text. read_text pm (joinpath (path pm) (parse_path s)) = Inr src_text))"
  unfolding get_sources_dictionary_def read_sources_total dict_of_keyed_set by auto

text \<open>
  The guard of \<^verbatim>\<open>_get_sources_dictionary\<close> can only leave out a source id that contains
  \<^verbatim>\<open>interfaces\<close>.
\<close>

lemma parts_contains:
  "w \<in> set (parts (parse_path s)) \<Longrightarrow> sublist w s"
  by (rule split_on_sublist [of w "CHR ''/''"]) (simp add: parse_path_def)

lemma guard_dead:
  assumes "\<not> str_contains ''interfaces'' s"
  shows "parent (joinpath base (parse_path s)) \<noteq> joinpath base (parse_path ''interfaces'')"
proof
  assume eq: "parent (joinpath base (parse_path s)) = joinpath base (parse_path ''interfaces'')"
  have target: "joinpath base (parse_path ''interfaces'') =
      Path (root base) (parts base @ [''interfaces''])"
    by (simp add: joinpath_def parse_path_def path_root_def is_absolute_def)
  from assms have no: "''interfaces'' \<notin> set (parts (parse_path s))"
    using parts_contains [of "''interfaces''" s] by (auto simp: str_contains_def)
  show False
  proof (cases "is_absolute (parse_path s)")
    case True
    with eq target have "butlast (parts (parse_path s)) = parts base @ [''interfaces'']"
      by (simp add: joinpath_def parent_def)
    then have "''interfaces'' \<in> set (butlast (parts (parse_path s)))"
      by simp
    with no show False
      by (blast dest: in_set_butlastD)
  next
    case False
    with eq target have b: "butlast (parts base @ parts (parse_path s)) = parts base @ [''interfaces'']"
      by (simp add: joinpath_def parent_def)
    show False
    proof (cases "parts (parse_path s) = []")
      case True
      with b have "butlast (parts base) = parts base @ [''interfaces'']"
        by simp
      then have "length (butlast (parts base)) = length (parts base @ [''interfaces''])"
        by simp
      then show False
        by simp
    next
      case False
      with b have "butlast (parts (parse_path s)) = [''interfaces'']"
        by (simp add: butlast_append)
      then have "''interfaces'' \<in> set (butlast (parts (parse_path s)))"
        by simp
      with no show False
        by (blast dest: in_set_butlastD)
    qed
  qed
qed

lemma compile_sends_request:
  "raised (compile self v settings') = None \<Longrightarrow> (k, ss) \<in> set settings' \<Longrightarrow>
   outputSelection ss \<noteq> [] \<Longrightarrow>
   \<exists>src_dict.
      get_sources_dictionary (project_manager self) (dict_keys (outputSelection ss)) = Inr src_dict \<and>
      make_input_json self ss src_dict \<in> set (requests (compile self v settings'))"
proof (induction settings')
  case Nil
  then show ?case by simp
next
  case (Cons g rest)
  obtain k' ss' where g: "g = (k', ss')" by (cases g)
  show ?case
  proof (cases "outputSelection ss' = []")
    case True
    with Cons.prems have "raised (compile self v rest) = None" "(k, ss) \<in> set rest"
      by (auto simp: g compile_Cons_skip)
    from Cons.IH [OF this Cons.prems(3)] True show ?thesis
      by (simp add: g compile_Cons_skip)
  next
    case sel: False
    show ?thesis
    proof (cases "get_sources_dictionary (project_manager self) (dict_keys (outputSelection ss'))")
      case (Inl e)
      with Cons.prems(1) show ?thesis
        by (simp add: g compile_Cons_sources_error [OF sel Inl])
    next
      case (Inr src_dict)
      show ?thesis
      proof (cases "vvm_compile_standard self (make_input_json self ss' src_dict) v
                      (path (project_manager self))")
        case (Inl err)
        with Cons.prems(1) show ?thesis
          by (simp add: g compile_Cons_vyper_error [OF sel Inr Inl])
      next
        case res: (Inr result)
        obtain cts e where cs:
          "compile_sources self v result src_dict (result_contracts result) = (cts, e)"
          by (cases "compile_sources self v result src_dict (result_contracts result)")
        note step = compile_Cons_result [OF sel Inr res cs, of k' rest]
        from Cons.prems(1) have e: "e = None"
          by (cases e) (simp_all add: g step)
        from Cons.prems(1) have rest_ok: "raised (compile self v rest) = None"
          by (simp add: g step e)
        from Cons.prems(2) have "(k, ss) = (k', ss') \<or> (k, ss) \<in> set rest"
          by (simp add: g)
        then show ?thesis
        proof
          assume "(k, ss) = (k', ss')"
          then show ?thesis
            using Inr by (simp add: g step e)
        next
          assume "(k, ss) \<in> set rest"
          from Cons.IH [OF rest_ok this Cons.prems(3)] show ?thesis
            by (auto simp: g step e)
        qed
      qed
    qed
  qed
qed

lemma selection_key_guard:
  assumes "s \<in> set (dict_keys (get_selection_dictionary pm selection))"
  shows "parent (joinpath (path pm) (parse_path s)) \<noteq>
           joinpath (path pm) (parse_path ''interfaces'')"
proof -
  from assms have "dict_get (get_selection_dictionary pm selection) s \<noteq> None"
    by (simp add: dict_get_None_iff)
  then have "\<not> str_contains ''interfaces'' s"
    unfolding dict_get_selection_dictionary by (simp split: if_splits)
  then show ?thesis
    by (rule guard_dead)
qed

lemma sources_of_selection:
  assumes "get_sources_dictionary pm (dict_keys (get_selection_dictionary pm selection)) = Inr d"
  shows "\<forall>s \<in> set (dict_keys (get_selection_dictionary pm selection)).
           \<exists>src_text. read_text pm (joinpath (path pm) (parse_path s)) = Inr src_text
                     \<and> dict_get d s = Some src_text"
    and "\<forall>s \<in> set (dict_keys d).
           s \<in> set (dict_keys (get_selection_dictionary pm selection))
           \<and> \<not> spec_inside_interfaces_directory s"
proof -
  let ?keys = "dict_keys (get_selection_dictionary pm selection)"
  show "\<forall>s \<in> set ?keys.
      \<exists>src_text. read_text pm (joinpath (path pm) (parse_path s)) = Inr src_text
                \<and> dict_get d s = Some src_text"
  proof
    fix s
    assume s: "s \<in> set ?keys"
    note guard = selection_key_guard [OF s]
    from assms have "\<exists>d. get_sources_dictionary pm ?keys = Inr d"
      by blast
    with s guard obtain src_text where
      "read_text pm (joinpath (path pm) (parse_path s)) = Inr src_text"
      unfolding sources_dictionary_total by blast
    moreover from this s guard have "dict_get d s = Some src_text"
      unfolding dict_get_sources_dictionary [OF assms] by simp
    ultimately show "\<exists>src_text.
        read_text pm (joinpath (path pm) (parse_path s)) = Inr src_text
        \<and> dict_get d s = Some src_text"
      by blast
  qed
  show "\<forall>s \<in> set (dict_keys d).
      s \<in> set ?keys \<and> \<not> spec_inside_interfaces_directory s"
  proof
    fix s
    assume "s \<in> set (dict_keys d)"
    then obtain src_text where "dict_get d s = Some src_text"
      using dict_get_None_iff [of d s] by auto
    then have "s \<in> set ?keys"
      unfolding dict_get_sources_dictionary [OF assms] by simp
    then show "s \<in> set ?keys \<and> \<not> spec_inside_interfaces_directory s"
      using selection_keys_outside_interfaces by blast
  qed
qed

lemma sources_of_selection_total:
  "(\<exists>d. get_sources_dictionary pm (dict_keys (get_selection_dictionary pm selection)) = Inr d)
   \<longleftrightarrow>
   (\<forall>s \<in> set (dict_keys (get_selection_dictionary pm selection)).
      \<exists>src_text. read_text pm (joinpath (path pm) (parse_path s)) = Inr src_text)"
  unfolding sources_dictionary_total using selection_key_guard [of _ pm selection] by blast

lemma get_settings_payload:
  assumes "get_settings sself v source_paths = Inr vs" and "(k, payload) \<in> set vs"
  shows "\<exists>selection.
      outputSelection payload = get_selection_dictionary (local_project sself) selection"
proof -
  from assms(1) have "version_settings sself
      (group_sources sself v (loop_source_paths source_paths) []) = Inr vs"
    by (simp add: get_settings_def)
  from version_settings_payloads [OF this assms(2)] show ?thesis
    using outputSelection_settings_payload by metis
qed

lemma get_settings_distinct:
  assumes "get_settings sself v source_paths = Inr vs"
  shows "distinct (dict_keys vs)"
proof -
  from assms have vsG: "version_settings sself
      (group_sources sself v (loop_source_paths source_paths) []) = Inr vs"
    by (simp add: get_settings_def)
  show ?thesis
    unfolding version_settings_keys [OF vsG]
    by (rule distinct_group_sources) (simp add: dict_keys_def)
qed

text \<open>
  C6. For the settings that \<^verbatim>\<open>get_settings\<close> returns, handed to \<^verbatim>\<open>compile\<close> of
  the same project. For a group with a non-empty output selection: the sources
  dictionary built for it maps every selected source id to the text of its file, holds
  no other key, and holds no source inside an \<^verbatim>\<open>interfaces\<close> directory; it is built
  exactly when the file of every selected source can be read; and a run that raises
  nothing sends a request for the group with that dictionary as its sources. For a
  request that \<^verbatim>\<open>compile\<close> sends: it is the request of such a group, its sources map
  every selected source id of the group to the text of its file, and no key of its
  sources is anything but a selected id or is inside an \<^verbatim>\<open>interfaces\<close> directory.
\<close>

theorem request_sources_of_selection:
  "(get_settings sself v source_paths = Inr vs
      \<and> project_manager self = local_project sself
      \<and> dict_get vs k = Some payload \<and> outputSelection payload \<noteq> [] \<longrightarrow>
      (\<forall>d. get_sources_dictionary (project_manager self)
                (dict_keys (outputSelection payload)) = Inr d \<longrightarrow>
           (\<forall>s \<in> set (dict_keys (outputSelection payload)).
              \<exists>src_text.
                 read_text (project_manager self)
                   (joinpath (path (project_manager self)) (parse_path s)) = Inr src_text
                 \<and> dict_get d s = Some src_text)
         \<and> (\<forall>s \<in> set (dict_keys d).
               s \<in> set (dict_keys (outputSelection payload))
               \<and> \<not> spec_inside_interfaces_directory s)
         \<and> distinct (dict_keys d)
         \<and> sources (make_input_json self payload d) = d)
    \<and> ((\<exists>d. get_sources_dictionary (project_manager self)
                (dict_keys (outputSelection payload)) = Inr d) \<longleftrightarrow>
         (\<forall>s \<in> set (dict_keys (outputSelection payload)).
            \<exists>src_text.
               read_text (project_manager self)
                 (joinpath (path (project_manager self)) (parse_path s)) = Inr src_text))
    \<and> (raised (compile self vyper_version vs) = None \<longrightarrow>
         (\<exists>d. get_sources_dictionary (project_manager self)
                 (dict_keys (outputSelection payload)) = Inr d
             \<and> make_input_json self payload d
                 \<in> set (requests (compile self vyper_version vs)))))
   \<and> (get_settings sself v source_paths = Inr vs
      \<and> project_manager self = local_project sself
      \<and> r \<in> set (requests (compile self vyper_version vs)) \<longrightarrow>
      (\<exists>k' payload'.
          dict_get vs k' = Some payload' \<and> outputSelection payload' \<noteq> []
          \<and> settings r = payload'
          \<and> get_sources_dictionary (project_manager self)
               (dict_keys (outputSelection payload')) = Inr (sources r)
          \<and> (\<forall>s \<in> set (dict_keys (outputSelection payload')).
                \<exists>src_text.
                   read_text (project_manager self)
                     (joinpath (path (project_manager self)) (parse_path s)) = Inr src_text
                   \<and> dict_get (sources r) s = Some src_text)
          \<and> (\<forall>s \<in> set (dict_keys (sources r)).
                s \<in> set (dict_keys (outputSelection payload'))
                \<and> \<not> spec_inside_interfaces_directory s)))"
  (is "(?group \<longrightarrow> ?built \<and> ?total \<and> ?sent) \<and> (?request \<longrightarrow> ?of_group)")
proof (intro conjI impI)
  assume group: ?group
  then have vs: "get_settings sself v source_paths = Inr vs"
    and pm: "project_manager self = local_project sself"
    and payload: "dict_get vs k = Some payload"
    and nonempty: "outputSelection payload \<noteq> []"
    by simp_all
  from payload have mem: "(k, payload) \<in> set vs"
    by (simp add: dict_get_def map_of_SomeD)
  from get_settings_payload [OF vs mem] obtain selection where
    sel: "outputSelection payload = get_selection_dictionary (project_manager self) selection"
    unfolding pm by blast
  show ?built
  proof (intro allI impI)
    fix d
    assume "get_sources_dictionary (project_manager self)
        (dict_keys (outputSelection payload)) = Inr d"
    then have built: "get_sources_dictionary (project_manager self)
        (dict_keys (get_selection_dictionary (project_manager self) selection)) = Inr d"
      by (simp add: sel)
    show "(\<forall>s \<in> set (dict_keys (outputSelection payload)).
              \<exists>src_text.
                 read_text (project_manager self)
                   (joinpath (path (project_manager self)) (parse_path s)) = Inr src_text
                 \<and> dict_get d s = Some src_text)
         \<and> (\<forall>s \<in> set (dict_keys d).
               s \<in> set (dict_keys (outputSelection payload))
               \<and> \<not> spec_inside_interfaces_directory s)
         \<and> distinct (dict_keys d)
         \<and> sources (make_input_json self payload d) = d"
      unfolding sel
      using sources_of_selection [OF built] distinct_sources_dictionary [OF built]
      by (simp add: make_input_json_def)
  qed
  show ?total
    unfolding sel by (rule sources_of_selection_total)
  show "\<exists>d. get_sources_dictionary (project_manager self)
               (dict_keys (outputSelection payload)) = Inr d
           \<and> make_input_json self payload d
               \<in> set (requests (compile self vyper_version vs))"
    if "raised (compile self vyper_version vs) = None"
    using compile_sends_request [OF that mem nonempty] .
next
  assume request: ?request
  then have vs: "get_settings sself v source_paths = Inr vs"
    and pm: "project_manager self = local_project sself"
    and r: "r \<in> set (requests (compile self vyper_version vs))"
    by simp_all
  from compile_requests [OF r] obtain k' payload' src_dict where
    mem: "(k', payload') \<in> set vs" and nonempty: "outputSelection payload' \<noteq> []"
    and built: "get_sources_dictionary (project_manager self)
        (dict_keys (outputSelection payload')) = Inr src_dict"
    and req: "r = make_input_json self payload' src_dict"
    by blast
  from get_settings_payload [OF vs mem] obtain selection where
    sel: "outputSelection payload' = get_selection_dictionary (project_manager self) selection"
    unfolding pm by blast
  have "distinct (map fst vs)"
    using get_settings_distinct [OF vs] by (simp add: dict_keys_def)
  with mem have get: "dict_get vs k' = Some payload'"
    by (simp add: dict_get_def)
  have src: "sources r = src_dict" and set: "settings r = payload'"
    by (simp_all add: req make_input_json_def)
  from built have built': "get_sources_dictionary (project_manager self)
      (dict_keys (get_selection_dictionary (project_manager self) selection)) = Inr src_dict"
    by (simp add: sel)
  have "dict_get vs k' = Some payload' \<and> outputSelection payload' \<noteq> []
      \<and> settings r = payload'
      \<and> get_sources_dictionary (project_manager self)
           (dict_keys (outputSelection payload')) = Inr (sources r)
      \<and> (\<forall>s \<in> set (dict_keys (outputSelection payload')).
            \<exists>src_text.
               read_text (project_manager self)
                 (joinpath (path (project_manager self)) (parse_path s)) = Inr src_text
               \<and> dict_get (sources r) s = Some src_text)
      \<and> (\<forall>s \<in> set (dict_keys (sources r)).
            s \<in> set (dict_keys (outputSelection payload'))
            \<and> \<not> spec_inside_interfaces_directory s)"
    unfolding src set
    using get nonempty built sources_of_selection [OF built']
    by (simp add: sel)
  then show ?of_group
    by blast
qed

section \<open>The small project, resolved\<close>

lemma example_lower:
  "lower example_unicode ([CHR 0xC3, CHR 0x89] @ ''%Paris'') = [CHR 0xC3, CHR 0xA9] @ ''%paris''"
  "lower example_unicode (''A'' @ capital_sigma @ '' '' @ capital_sigma @ ''B'') =
     ''a'' @ [CHR 0xCF, CHR 0x82] @ '' '' @ [CHR 0xCF, CHR 0x83] @ ''b''"
  "lower example_unicode ''True%Paris'' = ''true%paris''"
  by (simp_all add: lower_def ascii_byte_def continuation_def lower_char_def ascii_char_def
        lower_ascii_def capital_sigma_def final_sigma_def cased_def case_ignorable_def
        example_unicode_def)

lemma example_source_ids:
  "source_id_of example_settings_self (Path [] [''token.vy'']) = ''token.vy''"
  "source_id_of example_settings_self (Path [] [''bad.vy'']) = ''bad.vy''"
  "source_id_of example_settings_self (Path [] [''myinterfaces.vy'']) = ''myinterfaces.vy''"
  "source_id_of example_settings_self (Path [] [''interfaces'', ''IFace.vy'']) =
     ''interfaces/IFace.vy''"
  "source_id_of example_settings_self (Path [] [''missing.vy'']) = ''missing.vy''"
  by (simp_all add: source_id_of_def example_settings_self_def example_project_def absolute_def
        is_absolute_def joinpath_def path_str_def)

lemma example_settings_keys:
  "settings_key_of example_settings_self ''0.3.7'' ''token.vy'' = ''true%paris''"
  "settings_key_of example_settings_self ''0.3.7'' ''bad.vy'' = ''gas%paris''"
  "settings_key_of example_settings_self ''0.3.7'' ''myinterfaces.vy'' = ''true%paris''"
  "settings_key_of example_settings_self ''0.3.7'' ''interfaces/IFace.vy'' = ''true%paris''"
  "settings_key_of example_settings_self ''0.3.7'' ''missing.vy'' = ''true%paris''"
  by (simp_all add: settings_key_of_def resolve_optimization_def resolve_evm_version_def
        get_evm_version_def example_settings_self_def base_get_default_optimization_def
        lower_def ascii_byte_def continuation_def lower_char_def ascii_char_def
        lower_ascii_def capital_sigma_def example_unicode_def)

lemma example_other_keys:
  "settings_key_of example_percent_self ''0.3.7'' ''token.vy'' = ''true%a%b''"
  "settings_key_of example_accent_self ''0.3.7'' ''token.vy'' = [CHR 0xC3, CHR 0xA9] @ ''%paris''"
  by (simp_all add: settings_key_of_def resolve_optimization_def resolve_evm_version_def
        get_evm_version_def example_settings_self_def example_percent_self_def
        example_accent_self_def base_get_default_optimization_def
        lower_def ascii_byte_def continuation_def lower_char_def ascii_char_def
        lower_ascii_def capital_sigma_def example_unicode_def)

lemma example_is_file:
  "is_file example_project (joinpath (path example_project) (parse_path ''token.vy''))"
  "is_file example_project (joinpath (path example_project) (parse_path ''bad.vy''))"
  "is_file example_project (joinpath (path example_project) (parse_path ''myinterfaces.vy''))"
  "is_file example_project (joinpath (path example_project) (parse_path ''interfaces/IFace.vy''))"
  "is_file example_project (joinpath (path example_project) (parse_path ''binary.vy''))"
  "\<not> is_file example_project (joinpath (path example_project) (parse_path ''missing.vy''))"
  by (simp_all add: example_project_def example_files_def joinpath_def parse_path_def
        path_root_def is_absolute_def)

lemma example_contains:
  "\<not> str_contains ''interfaces'' ''token.vy''"
  "\<not> str_contains ''interfaces'' ''bad.vy''"
  "\<not> str_contains ''interfaces'' ''binary.vy''"
  "\<not> str_contains ''interfaces'' ''missing.vy''"
  "str_contains ''interfaces'' ''myinterfaces.vy''"
  "str_contains ''interfaces'' ''interfaces/IFace.vy''"
  by (simp_all add: str_contains_def sublist_Cons_right)

lemma example_inside:
  "\<not> spec_inside_interfaces_directory ''token.vy''"
  "\<not> spec_inside_interfaces_directory ''myinterfaces.vy''"
  "spec_inside_interfaces_directory ''interfaces/IFace.vy''"
  by (simp_all add: spec_inside_interfaces_directory_def parse_path_def path_root_def)

lemma example_groups:
  "group_sources example_settings_self ''0.3.7''
     [Path [] [''token.vy''], Path [] [''bad.vy''], Path [] [''myinterfaces.vy''],
      Path [] [''interfaces'', ''IFace.vy''], Path [] [''missing.vy'']] [] =
   [(''true%paris'', [''token.vy'', ''myinterfaces.vy'', ''interfaces/IFace.vy'', ''missing.vy'']),
    (''gas%paris'', [''bad.vy''])]"
  "group_sources example_settings_self ''0.3.7''
     [Path [] [''token.vy''], Path [] [''interfaces'', ''IFace.vy'']] [] =
   [(''true%paris'', [''token.vy'', ''interfaces/IFace.vy''])]"
  "group_sources example_settings_self ''0.3.7'' [Path [] [''myinterfaces.vy'']] [] =
   [(''true%paris'', [''myinterfaces.vy''])]"
  "group_sources example_percent_self ''0.3.7'' [Path [] [''token.vy'']] [] =
   [(''true%a%b'', [''token.vy''])]"
proof -
  have "source_id_of example_percent_self (Path [] [''token.vy'']) = ''token.vy''"
    by (simp add: source_id_of_def example_settings_self_def example_percent_self_def
          example_project_def absolute_def is_absolute_def joinpath_def path_str_def)
  then show "group_sources example_percent_self ''0.3.7'' [Path [] [''token.vy'']] [] =
      [(''true%a%b'', [''token.vy''])]"
    by (simp add: Let_def example_other_keys set_add_def)
qed (simp_all add: Let_def example_source_ids example_settings_keys set_add_def)

lemma example_selection:
  "get_selection_dictionary example_project
     [''token.vy'', ''myinterfaces.vy'', ''interfaces/IFace.vy'', ''missing.vy''] =
     [(''token.vy'', [''*''])]"
  "get_selection_dictionary example_project [''token.vy'', ''interfaces/IFace.vy''] =
     [(''token.vy'', [''*''])]"
  "get_selection_dictionary example_project [''bad.vy''] = [(''bad.vy'', [''*''])]"
  "get_selection_dictionary example_project [''myinterfaces.vy''] = []"
  "get_selection_dictionary example_project [''binary.vy''] = [(''binary.vy'', [''*''])]"
proof -
  have fmt: "get_output_format example_project = [''*'']"
    by (simp add: get_output_format_def example_project_def)
  show "get_selection_dictionary example_project
     [''token.vy'', ''myinterfaces.vy'', ''interfaces/IFace.vy'', ''missing.vy''] =
     [(''token.vy'', [''*''])]"
    "get_selection_dictionary example_project [''token.vy'', ''interfaces/IFace.vy''] =
     [(''token.vy'', [''*''])]"
    "get_selection_dictionary example_project [''bad.vy''] = [(''bad.vy'', [''*''])]"
    "get_selection_dictionary example_project [''myinterfaces.vy''] = []"
    "get_selection_dictionary example_project [''binary.vy''] = [(''binary.vy'', [''*''])]"
    by (simp_all add: get_selection_dictionary_def example_is_file example_contains fmt
          dict_of_def)
qed

lemma example_split_keys:
  "split_key ''true%paris'' = Some (''true'', ''paris'')"
  "split_key ''gas%paris'' = Some (''gas'', ''paris'')"
  "split_key ''true%a%b'' = None"
  by (simp_all add: split_key_def)

lemma example_get_settings:
  "get_settings example_settings_self ''0.3.7''
     (Sequence [Path [] [''token.vy''], Path [] [''bad.vy''], Path [] [''myinterfaces.vy''],
                Path [] [''interfaces'', ''IFace.vy''], Path [] [''missing.vy'']]) =
   Inr [(''true%paris'', example_token_payload),
        (''gas%paris'',
          \<lparr> optimize = OStr ''gas'', outputSelection = [(''bad.vy'', [''*''])],
            search_paths = [''/site-packages'', ''.''], evmVersion = Some ''paris'' \<rparr>)]"
  "get_settings example_settings_self ''0.3.7''
     (Sequence [Path [] [''token.vy''], Path [] [''interfaces'', ''IFace.vy'']]) =
   Inr [(''true%paris'', example_token_payload)]"
  "get_settings example_settings_self ''0.3.7'' (Sequence [Path [] [''myinterfaces.vy'']]) =
   Inr [(''true%paris'', example_token_payload \<lparr> outputSelection := [] \<rparr>)]"
  "get_settings example_percent_self ''0.3.7'' (Sequence [Path [] [''token.vy'']]) =
   Inl ValueError"
  "get_settings example_settings_self ''0.3.7'' (Iterator [Path [] [''token.vy'']]) = Inr []"
proof -
  have self: "local_project example_settings_self = example_project"
    "getsitepackages example_settings_self = [''/site-packages'']"
    by (simp_all add: example_settings_self_def)
  show "get_settings example_settings_self ''0.3.7''
     (Sequence [Path [] [''token.vy''], Path [] [''bad.vy''], Path [] [''myinterfaces.vy''],
                Path [] [''interfaces'', ''IFace.vy''], Path [] [''missing.vy'']]) =
   Inr [(''true%paris'', example_token_payload),
        (''gas%paris'',
          \<lparr> optimize = OStr ''gas'', outputSelection = [(''bad.vy'', [''*''])],
            search_paths = [''/site-packages'', ''.''], evmVersion = Some ''paris'' \<rparr>)]"
    unfolding get_settings_def loop_source_paths.simps example_groups
    by (simp add: example_split_keys settings_payload_def example_selection self
          example_token_payload_def)
  show "get_settings example_settings_self ''0.3.7''
     (Sequence [Path [] [''token.vy''], Path [] [''interfaces'', ''IFace.vy'']]) =
   Inr [(''true%paris'', example_token_payload)]"
    unfolding get_settings_def loop_source_paths.simps example_groups
    by (simp add: example_split_keys settings_payload_def example_selection self
          example_token_payload_def)
  show "get_settings example_settings_self ''0.3.7'' (Sequence [Path [] [''myinterfaces.vy'']]) =
   Inr [(''true%paris'', example_token_payload \<lparr> outputSelection := [] \<rparr>)]"
    unfolding get_settings_def loop_source_paths.simps example_groups
    by (simp add: example_split_keys settings_payload_def example_selection self
          example_token_payload_def)
  show "get_settings example_percent_self ''0.3.7'' (Sequence [Path [] [''token.vy'']]) =
   Inl ValueError"
    unfolding get_settings_def loop_source_paths.simps example_groups
    by (simp add: example_split_keys)
  show "get_settings example_settings_self ''0.3.7'' (Iterator [Path [] [''token.vy'']]) = Inr []"
    by (simp add: get_settings_def)
qed

lemma example_returned_settings:
  "get_settings example_settings_self ''0.3.7'' (Sequence example_paths) = Inr example_returned"
  unfolding example_paths_def example_returned_def by (rule example_get_settings(1))

lemma example_selected:
  "selected example_returned ''true%paris'' ''token.vy''"
  "\<not> selected example_returned ''gas%paris'' ''token.vy''"
  "selected example_returned ''gas%paris'' ''bad.vy''"
  "\<not> selected example_returned ''true%paris'' ''interfaces/IFace.vy''"
  "\<not> selected example_returned ''gas%paris'' ''interfaces/IFace.vy''"
  "\<not> selected example_returned ''true%paris'' ''missing.vy''"
  "\<not> selected example_returned ''gas%paris'' ''missing.vy''"
  "\<not> selected [(''true%paris'', example_token_payload)] ''true%paris'' ''interfaces/IFace.vy''"
  by (simp_all add: selected_def example_returned_def example_token_payload_def dict_get_def
        dict_keys_def)

theorem each_source_in_one_returned_group_witness:
  "get_settings example_settings_self ''0.3.7'' (Sequence example_paths) = Inr example_returned
   \<and> Path [] [''token.vy''] \<in> set example_paths
   \<and> Path [] [''interfaces'', ''IFace.vy''] \<in> set example_paths
   \<and> Path [] [''missing.vy''] \<in> set example_paths
   \<and> is_file example_project (joinpath (path example_project) (parse_path ''token.vy''))
   \<and> \<not> str_contains ''interfaces'' ''token.vy''
   \<and> selected example_returned ''true%paris'' ''token.vy''
   \<and> \<not> selected example_returned ''gas%paris'' ''token.vy''
   \<and> spec_inside_interfaces_directory ''interfaces/IFace.vy''
   \<and> \<not> selected example_returned ''true%paris'' ''interfaces/IFace.vy''
   \<and> \<not> selected example_returned ''gas%paris'' ''interfaces/IFace.vy''
   \<and> \<not> is_file example_project (joinpath (path example_project) (parse_path ''missing.vy''))
   \<and> \<not> selected example_returned ''true%paris'' ''missing.vy''
   \<and> dict_keys example_returned = [''true%paris'', ''gas%paris'']
   \<and> settings_key_of example_accent_self ''0.3.7'' ''token.vy'' =
       [CHR 0xC3, CHR 0xA9] @ ''%paris''"
proof -
  have pm: "local_project example_settings_self = example_project"
    by (simp add: example_settings_self_def)
  note groups = each_source_in_one_returned_group
    [where self = example_settings_self and v = "''0.3.7''" and source_paths = example_paths
       and vs = example_returned, THEN conjunct1, THEN mp]
  have token: "get_settings example_settings_self ''0.3.7'' (Sequence example_paths) =
        Inr example_returned \<and> Path [] [''token.vy''] \<in> set example_paths"
    and iface: "get_settings example_settings_self ''0.3.7'' (Sequence example_paths) =
        Inr example_returned \<and> Path [] [''interfaces'', ''IFace.vy''] \<in> set example_paths"
    and missing: "get_settings example_settings_self ''0.3.7'' (Sequence example_paths) =
        Inr example_returned \<and> Path [] [''missing.vy''] \<in> set example_paths"
    by (simp_all add: example_returned_settings) (simp_all add: example_paths_def)
  have kept: "is_file (local_project example_settings_self)
        (joinpath (path (local_project example_settings_self))
           (parse_path (source_id_of example_settings_self (Path [] [''token.vy'']))))
      \<and> \<not> str_contains ''interfaces'' (source_id_of example_settings_self (Path [] [''token.vy'']))"
    by (simp add: pm example_source_ids example_is_file example_contains)
  from groups [OF token, THEN conjunct1, THEN mp, OF kept, THEN conjunct1]
  have c1: "selected example_returned ''true%paris'' ''token.vy''"
    by (simp add: example_source_ids example_settings_keys)
  have "selected example_returned ''gas%paris'' ''token.vy'' \<longrightarrow> ''gas%paris'' = ''true%paris''"
    using groups [OF token, THEN conjunct2, THEN conjunct1, THEN spec, of "''gas%paris''"]
    by (simp add: example_source_ids example_settings_keys)
  then have c2: "\<not> selected example_returned ''gas%paris'' ''token.vy''"
    by auto
  have inside: "\<not> is_file (local_project example_settings_self)
        (joinpath (path (local_project example_settings_self))
           (parse_path (source_id_of example_settings_self (Path [] [''interfaces'', ''IFace.vy'']))))
      \<or> spec_inside_interfaces_directory
           (source_id_of example_settings_self (Path [] [''interfaces'', ''IFace.vy'']))"
    by (simp add: example_source_ids example_inside)
  note none_iface = groups [OF iface, THEN conjunct2, THEN conjunct2, THEN conjunct1, THEN mp,
      OF inside]
  have c3: "\<not> selected example_returned ''true%paris'' ''interfaces/IFace.vy''"
    and c4: "\<not> selected example_returned ''gas%paris'' ''interfaces/IFace.vy''"
    using none_iface [THEN spec, of "''true%paris''"] none_iface [THEN spec, of "''gas%paris''"]
    by (simp_all add: example_source_ids)
  have gone: "\<not> is_file (local_project example_settings_self)
        (joinpath (path (local_project example_settings_self))
           (parse_path (source_id_of example_settings_self (Path [] [''missing.vy'']))))
      \<or> spec_inside_interfaces_directory
           (source_id_of example_settings_self (Path [] [''missing.vy'']))"
    by (simp add: pm example_source_ids example_is_file)
  have c5: "\<not> selected example_returned ''true%paris'' ''missing.vy''"
    using groups [OF missing, THEN conjunct2, THEN conjunct2, THEN conjunct1, THEN mp,
      OF gone, THEN spec, of "''true%paris''"]
    by (simp add: example_source_ids)
  have keys: "dict_keys example_returned = [''true%paris'', ''gas%paris'']"
    by (simp add: dict_keys_def example_returned_def)
  show ?thesis
    using token iface missing c1 c2 c3 c4 c5 keys
    by (simp add: example_is_file example_contains example_inside example_other_keys)
qed

theorem each_source_in_one_group_counterexample:
  "get_settings example_settings_self ''0.3.7'' (Sequence example_paths) = Inr example_returned
   \<and> dict_keys example_returned = [''true%paris'', ''gas%paris'']
   \<and> Path [] [''interfaces'', ''IFace.vy''] \<in> set example_paths
   \<and> source_id_of example_settings_self (Path [] [''interfaces'', ''IFace.vy'']) =
       ''interfaces/IFace.vy''
   \<and> is_file example_project (joinpath (path example_project) (parse_path ''interfaces/IFace.vy''))
   \<and> \<not> selected example_returned ''true%paris'' ''interfaces/IFace.vy''
   \<and> \<not> selected example_returned ''gas%paris'' ''interfaces/IFace.vy''
   \<and> Path [] [''missing.vy''] \<in> set example_paths
   \<and> source_id_of example_settings_self (Path [] [''missing.vy'']) = ''missing.vy''
   \<and> \<not> selected example_returned ''true%paris'' ''missing.vy''
   \<and> \<not> selected example_returned ''gas%paris'' ''missing.vy''
   \<and> settings_key_of example_percent_self ''0.3.7'' ''token.vy'' = ''true%a%b''
   \<and> get_settings example_percent_self ''0.3.7'' (Sequence [Path [] [''token.vy'']]) =
       Inl ValueError
   \<and> get_settings example_settings_self ''0.3.7'' (Iterator [Path [] [''token.vy'']]) = Inr []"
proof -
  have "dict_keys example_returned = [''true%paris'', ''gas%paris'']"
    by (simp add: dict_keys_def example_returned_def)
  moreover have "Path [] [''interfaces'', ''IFace.vy''] \<in> set example_paths"
    and "Path [] [''missing.vy''] \<in> set example_paths"
    by (simp_all add: example_paths_def)
  ultimately show ?thesis
    by (simp add: example_returned_settings example_get_settings example_source_ids
          example_is_file example_selected example_other_keys)
qed

text \<open>
  C5. The project holds the contract \<^verbatim>\<open>myinterfaces.vy\<close>: the file exists and is not
  inside an \<^verbatim>\<open>interfaces\<close> directory. \<^verbatim>\<open>_get_selection_dictionary\<close> leaves it out of
  the output selection, because its name contains \<^verbatim>\<open>interfaces\<close>, while
  \<^verbatim>\<open>_get_sources_dictionary\<close> keeps it; the group that \<^verbatim>\<open>get_settings\<close> returns for it
  has an empty selection, and \<^verbatim>\<open>compile\<close> sends no request for it and yields nothing.
\<close>

theorem selection_drops_contract:
  "is_file example_project (joinpath (path example_project) (parse_path ''myinterfaces.vy''))
   \<and> \<not> spec_inside_interfaces_directory ''myinterfaces.vy''
   \<and> get_selection_dictionary example_project
        [''token.vy'', ''myinterfaces.vy'', ''interfaces/IFace.vy'', ''missing.vy''] =
       [(''token.vy'', [''*''])]
   \<and> get_selection_dictionary example_project [''myinterfaces.vy''] = []
   \<and> get_sources_dictionary example_project [''myinterfaces.vy''] =
       Inr [(''myinterfaces.vy'', ''y: uint256'')]
   \<and> get_settings example_settings_self ''0.3.7'' (Sequence [Path [] [''myinterfaces.vy'']]) =
       Inr [(''true%paris'', example_token_payload \<lparr> outputSelection := [] \<rparr>)]
   \<and> compile example_self ''0.3.7''
        [(''true%paris'', example_token_payload \<lparr> outputSelection := [] \<rparr>)] =
       \<lparr> yielded = [], requests = [], raised = None \<rparr>"
proof -
  have "get_sources_dictionary example_project [''myinterfaces.vy''] =
      Inr [(''myinterfaces.vy'', ''y: uint256'')]"
    by (simp add: get_sources_dictionary_def dict_of_def example_project_def example_files_def
          parse_path_def path_root_def joinpath_def is_absolute_def parent_def)
  moreover have "compile example_self ''0.3.7''
      [(''true%paris'', example_token_payload \<lparr> outputSelection := [] \<rparr>)] =
      \<lparr> yielded = [], requests = [], raised = None \<rparr>"
    by (simp add: compile_Cons_skip)
  ultimately show ?thesis
    by (simp add: example_is_file example_inside example_selection example_get_settings)
qed

lemma example_compile_returned:
  "compile example_self ''0.3.7'' [(''true%paris'', example_token_payload)] =
     \<lparr> yielded = [(example_contract_type, ''true%paris'')],
       requests = [make_input_json example_self example_token_payload
                     [(''token.vy'', example_token_text)]],
       raised = None \<rparr>"
proof -
  have sel: "outputSelection example_token_payload \<noteq> []"
    by (simp add: example_token_payload_def)
  have src: "get_sources_dictionary (project_manager example_self)
                (dict_keys (outputSelection example_token_payload)) =
             Inr [(''token.vy'', example_token_text)]"
    using example_sources(1) by (simp add: example_self_def example_token_payload_def dict_keys_def)
  have res: "vvm_compile_standard example_self
               (make_input_json example_self example_token_payload
                  [(''token.vy'', example_token_text)]) ''0.3.7''
               (path (project_manager example_self)) = Inr example_result"
    by (simp add: example_self_def make_input_json_def dict_get_def)
  show ?thesis
    using compile_Cons_result [OF sel src res example_compile_sources, of "''true%paris''" "[]"]
    by simp
qed

lemma example_unreadable:
  "is_file example_project (joinpath (path example_project) (parse_path ''binary.vy''))"
  "get_selection_dictionary example_project [''binary.vy''] = [(''binary.vy'', [''*''])]"
  "get_sources_dictionary example_project [''binary.vy''] =
     Inl (UnicodeDecodeError (Path ''/'' [''proj'', ''binary.vy'']))"
  by (simp_all add: example_is_file example_selection)
     (simp add: get_sources_dictionary_def dict_of_def example_project_def example_files_def
        parse_path_def path_root_def joinpath_def is_absolute_def parent_def)

theorem request_sources_of_selection_witness:
  "get_settings example_settings_self ''0.3.7''
     (Sequence [Path [] [''token.vy''], Path [] [''interfaces'', ''IFace.vy'']]) =
     Inr [(''true%paris'', example_token_payload)]
   \<and> project_manager example_self = local_project example_settings_self
   \<and> dict_get [(''true%paris'', example_token_payload)] ''true%paris'' =
       Some example_token_payload
   \<and> dict_keys (outputSelection example_token_payload) = [''token.vy'']
   \<and> raised (compile example_self ''0.3.7'' [(''true%paris'', example_token_payload)]) = None
   \<and> requests (compile example_self ''0.3.7'' [(''true%paris'', example_token_payload)]) =
       [make_input_json example_self example_token_payload [(''token.vy'', example_token_text)]]
   \<and> get_sources_dictionary (project_manager example_self)
        (dict_keys (outputSelection example_token_payload)) =
       Inr [(''token.vy'', example_token_text)]
   \<and> read_text (project_manager example_self)
        (joinpath (path (project_manager example_self)) (parse_path ''token.vy'')) =
       Inr example_token_text
   \<and> sources (make_input_json example_self example_token_payload
                 [(''token.vy'', example_token_text)]) =
       [(''token.vy'', example_token_text)]
   \<and> dict_get [(''token.vy'', example_token_text)] ''interfaces/IFace.vy'' = None"
proof -
  have called: "get_settings example_settings_self ''0.3.7''
      (Sequence [Path [] [''token.vy''], Path [] [''interfaces'', ''IFace.vy'']]) =
      Inr [(''true%paris'', example_token_payload)]"
    by (rule example_get_settings(2))
  have pm: "project_manager example_self = local_project example_settings_self"
    by (simp add: example_self_def example_settings_self_def)
  have payload: "dict_get [(''true%paris'', example_token_payload)] ''true%paris'' =
      Some example_token_payload"
    by (simp add: dict_get_def)
  have keys: "dict_keys (outputSelection example_token_payload) = [''token.vy'']"
    by (simp add: example_token_payload_def dict_keys_def)
  have nonempty: "outputSelection example_token_payload \<noteq> []"
    by (simp add: example_token_payload_def)
  have built: "get_sources_dictionary (project_manager example_self)
      (dict_keys (outputSelection example_token_payload)) =
      Inr [(''token.vy'', example_token_text)]"
    using example_sources(1) by (simp add: keys example_self_def)
  have group: "get_settings example_settings_self ''0.3.7''
        (Sequence [Path [] [''token.vy''], Path [] [''interfaces'', ''IFace.vy'']]) =
        Inr [(''true%paris'', example_token_payload)]
      \<and> project_manager example_self = local_project example_settings_self
      \<and> dict_get [(''true%paris'', example_token_payload)] ''true%paris'' =
          Some example_token_payload
      \<and> outputSelection example_token_payload \<noteq> []"
    using called pm payload nonempty by simp
  note of_group = request_sources_of_selection
    [where sself = example_settings_self and v = "''0.3.7''" and self = example_self
       and source_paths = "Sequence [Path [] [''token.vy''], Path [] [''interfaces'', ''IFace.vy'']]"
       and vs = "[(''true%paris'', example_token_payload)]" and k = "''true%paris''"
       and payload = example_token_payload, THEN conjunct1, THEN mp, OF group]
  from of_group [THEN conjunct1, THEN spec, THEN mp, OF built, THEN conjunct1]
  have "\<exists>src_text.
      read_text (project_manager example_self)
        (joinpath (path (project_manager example_self)) (parse_path ''token.vy'')) = Inr src_text
      \<and> dict_get [(''token.vy'', example_token_text)] ''token.vy'' = Some src_text"
    by (simp add: keys)
  then have content: "read_text (project_manager example_self)
      (joinpath (path (project_manager example_self)) (parse_path ''token.vy'')) =
      Inr example_token_text"
    by (auto simp: dict_get_def)
  show ?thesis
    using called pm payload keys built content
    by (simp add: example_compile_returned make_input_json_def dict_get_def)
qed

theorem falsy_pragma_uses_default_witness:
  "optimizations_map example_settings_self ''token.vy'' = Some (OBool False)
   \<and> get_default_optimization example_settings_self ''0.3.7'' = OBool True
   \<and> resolve_optimization example_settings_self ''0.3.7'' ''token.vy'' = OBool True
   \<and> settings_key_of example_settings_self ''0.3.7'' ''token.vy'' = ''true%paris''
   \<and> split_key (settings_key_of example_settings_self ''0.3.7'' ''token.vy'')
       = Some (''true'', ''paris'')"
proof -
  have falsy: "optimizations_map example_settings_self ''token.vy'' = None
         \<or> optimizations_map example_settings_self ''token.vy'' = Some (OStr [])
         \<or> optimizations_map example_settings_self ''token.vy'' = Some (OBool False)"
    by (simp add: example_settings_self_def)
  have dflt: "get_default_optimization example_settings_self ''0.3.7'' = OBool True"
    by (simp add: example_settings_self_def base_get_default_optimization_def)
  from falsy_pragma_uses_default [OF falsy, of "''0.3.7''"] dflt
  have "resolve_optimization example_settings_self ''0.3.7'' ''token.vy'' = OBool True"
    by simp
  then show ?thesis
    using dflt
    by (simp add: example_settings_keys split_key_def) (simp add: example_settings_self_def)
qed

end
